theory Spec2Isabelle
  imports Main "HOL-Library.FSet" "HOL-Library.Multiset"
begin

section \<open>Terms\<close>

text \<open>
  The Go interface \<open>Term\<close> has three implementations, whose fields are read by
  \<open>termToJSONLDID\<close> and \<open>termToJSONLDValue\<close> of the dataset file: \<open>Resource{URI}\<close>,
  \<open>Literal{Value, Language, Datatype}\<close> and \<open>BlankNode{ID}\<close>. \<open>Language\<close> is a Go string
  (empty when there is no language tag) and \<open>Datatype\<close> is a \<open>Term\<close> that may be nil.
  A nil \<open>Term\<close> is \<open>None\<close> of type \<open>Term option\<close>.
\<close>

datatype Term =
    Resource (URI: string)
  | Literal (Value: string) (Language: string) (Datatype: "Term option")
  | BlankNode (ID: string)

text \<open>
  Modelled from the spec: the method \<open>Term.String\<close> (the file that declares the term
  variants is not among the sources). Section 3: the canonical text form is \<open><uri>\<close> for
  resources, \<open>"value"[@lang]\<close> or \<open>"value"^^<datatype-uri>\<close> for literals, \<open>_:id\<close> for
  blank nodes. The test of \<open>Quad.String\<close> confirms \<open><a>\<close> for \<open>NewResource("a")\<close>.
\<close>

fun Term_String :: "Term \<Rightarrow> string" where
  "Term_String (Resource u) = ''<'' @ u @ ''>''"
| "Term_String (Literal v l dt) =
     [CHR 0x22] @ v @ [CHR 0x22] @
     (if l \<noteq> [] then ''@'' @ l
      else (case dt of None \<Rightarrow> [] | Some t \<Rightarrow> ''^^'' @ Term_String t))"
| "Term_String (BlankNode i) = ''_:'' @ i"

text \<open>
  Modelled from the spec: the method \<open>Term.Equal\<close> (same missing file). Section 3: two
  resources are equal iff their URIs are equal; two literals are equal iff value,
  language tag and datatype all match (absence matches only absence); blank nodes are
  equal iff their ids match. Terms of different variants are not equal.
\<close>

fun Term_Equal :: "Term \<Rightarrow> Term \<Rightarrow> bool" where
  "Term_Equal (Resource u) (Resource u') = (u = u')"
| "Term_Equal (Literal v l dt) (Literal v' l' dt') =
     (v = v' \<and> l = l' \<and>
      (case (dt, dt') of
         (None, None) \<Rightarrow> True
       | (Some t, Some t') \<Rightarrow> Term_Equal t t'
       | _ \<Rightarrow> False))"
| "Term_Equal (BlankNode i) (BlankNode i') = (i = i')"
| "Term_Equal _ _ = False"

text \<open>
  Modelled from the spec: the function \<open>encodeTerm\<close> that \<open>serializeTrig\<close> calls (not among
  the sources). Section 4.4: each triple line is \<open>S P O .\<close> using canonical term
  encodings. The spec gives no encoding of an absent term; it is the empty text here.
\<close>

definition encodeTerm :: "Term option \<Rightarrow> string" where
  "encodeTerm t = (case t of None \<Rightarrow> [] | Some x \<Rightarrow> Term_String x)"

section \<open>Quads and the heap of quad objects\<close>

text \<open>\<open>quad.go\<close>: a quad has four \<open>Term\<close> fields, each of which may be nil.\<close>

record Quad =
  Subject :: "Term option"
  Predicate :: "Term option"
  Object :: "Term option"
  Graph :: "Term option"

text \<open>
  The dataset stores quads as keys of a \<open>map[*Quad]bool\<close>: the key is the pointer, so
  two quads with the same fields are two keys. Pointers are modelled by an explicit
  heap: a list of the quad objects allocated so far, a pointer being \<open>Nil\<close> or the index
  of a cell. Go has no dangling pointers, so every non-nil pointer a program holds is
  below the length of the heap (\<open>ptr_ok\<close>).
\<close>

datatype quad_ptr = Nil | Ptr nat

type_synonym heap = "Quad list"

datatype panic = NilDereference

definition ptr_ok :: "heap \<Rightarrow> quad_ptr \<Rightarrow> bool" where
  "ptr_ok h q = (case q of Nil \<Rightarrow> True | Ptr a \<Rightarrow> a < length h)"

text \<open>
  Reading through a pointer; a nil pointer panics. An index beyond the heap is not a
  pointer any Go program holds; the model gives it the same result.
\<close>

definition deref :: "heap \<Rightarrow> quad_ptr \<Rightarrow> panic + Quad" where
  "deref h q =
     (case q of
        Nil \<Rightarrow> Inl NilDereference
      | Ptr a \<Rightarrow> if a < length h then Inr (h ! a) else Inl NilDereference)"

text \<open>\<open>NewQuad\<close> returns \<open>&Quad{...}\<close>: a pointer to a newly allocated object.\<close>

definition NewQuad ::
  "heap \<Rightarrow> Term option \<Rightarrow> Term option \<Rightarrow> Term option \<Rightarrow> Term option \<Rightarrow> heap \<times> quad_ptr" where
  "NewQuad h s p ob g =
     (h @ [\<lparr>Subject = s, Predicate = p, Object = ob, Graph = g\<rparr>], Ptr (length h))"

text \<open>
  \<open>Quad.String\<close>: each of subject, predicate and object is written as its \<open>String()\<close>,
  or as \<open>nil\<close> when it is nil; the graph is appended only when it is not nil.
\<close>

definition nil_or_String :: "Term option \<Rightarrow> string" where
  "nil_or_String t = (case t of None \<Rightarrow> ''nil'' | Some x \<Rightarrow> Term_String x)"

definition Quad_String :: "Quad \<Rightarrow> string" where
  "Quad_String quad =
     (let subjStr = nil_or_String (Subject quad);
          predStr = nil_or_String (Predicate quad);
          objStr = nil_or_String (Object quad)
      in case Graph quad of
           Some g \<Rightarrow> subjStr @ '' '' @ predStr @ '' '' @ objStr @ '' '' @ Term_String g @ '' .''
         | None \<Rightarrow> subjStr @ '' '' @ predStr @ '' '' @ objStr @ '' .'')"

section \<open>The dataset\<close>

text \<open>
  \<open>Dataset\<close>: the key set of the \<open>quads\<close> map (every stored value is \<open>true\<close>), the base
  URI and the term made from it. The HTTP client plays no part in what follows.
\<close>

record Dataset =
  quads :: "quad_ptr fset"
  uri :: string
  self_term :: Term

definition NewDataset :: "string \<Rightarrow> Dataset" where
  "NewDataset u = \<lparr>quads = {||}, uri = u, self_term = Resource u\<rparr>"

definition Len :: "Dataset \<Rightarrow> nat" where
  "Len d = fcard (quads d)"

definition Add :: "Dataset \<Rightarrow> quad_ptr \<Rightarrow> Dataset" where
  "Add d q = d\<lparr>quads := finsert q (quads d)\<rparr>"

definition AddQuad ::
  "heap \<Rightarrow> Dataset \<Rightarrow> Term option \<Rightarrow> Term option \<Rightarrow> Term option \<Rightarrow> Term option
     \<Rightarrow> heap \<times> Dataset" where
  "AddQuad h d s p ob g =
     (case NewQuad h s p ob g of (h', q) \<Rightarrow> (h', d\<lparr>quads := finsert q (quads d)\<rparr>))"

definition AddTriple ::
  "heap \<Rightarrow> Dataset \<Rightarrow> Term option \<Rightarrow> Term option \<Rightarrow> Term option \<Rightarrow> heap \<times> Dataset" where
  "AddTriple h d s p ob =
     (case NewQuad h s p ob None of (h', q) \<Rightarrow> (h', d\<lparr>quads := finsert q (quads d)\<rparr>))"

definition Remove :: "Dataset \<Rightarrow> quad_ptr \<Rightarrow> Dataset" where
  "Remove d q = d\<lparr>quads := quads d |-| {|q|}\<rparr>"

text \<open>
  \<open>IterQuads\<close> fills a channel with the keys of the map; Go leaves the order of a map
  iteration open. \<open>IterQuads d ch\<close> says that \<open>ch\<close> is one of the sequences the channel
  can deliver: every key once, in any order.
\<close>

definition IterQuads :: "Dataset \<Rightarrow> quad_ptr list \<Rightarrow> bool" where
  "IterQuads d ch = (distinct ch \<and> fset_of_list ch = quads d)"

text \<open>\<open>Merge\<close> adds every pointer the channel of the other dataset delivers.\<close>

definition Merge :: "Dataset \<Rightarrow> quad_ptr list \<Rightarrow> Dataset" where
  "Merge d ch = fold (\<lambda>quad acc. Add acc quad) ch d"

text \<open>Every pointer the dataset holds is nil or points into the heap.\<close>

definition store_ok :: "heap \<Rightarrow> Dataset \<Rightarrow> bool" where
  "store_ok h d = fBall (quads d) (ptr_ok h)"

text \<open>
  Section 3 of the spec: the three terms of a triple are all required (non-absent).
  \<open>quads_ok\<close> says that every stored pointer is non-nil and points to a quad whose
  subject, predicate and object are present.
\<close>

definition quad_ok :: "Quad \<Rightarrow> bool" where
  "quad_ok quad = (Subject quad \<noteq> None \<and> Predicate quad \<noteq> None \<and> Object quad \<noteq> None)"

definition quads_ok :: "heap \<Rightarrow> Dataset \<Rightarrow> bool" where
  "quads_ok h d =
     fBall (quads d) (\<lambda>q. case deref h q of Inl e \<Rightarrow> False | Inr quad \<Rightarrow> quad_ok quad)"

section \<open>Pattern queries\<close>

text \<open>
  The guard \<open>s != nil && !quad.Subject.Equal(s)\<close> of \<open>One\<close> and \<open>All\<close> (the same for
  predicate and object): with a pattern term present, the method call on a nil field
  panics.
\<close>

definition term_differs :: "Term option \<Rightarrow> Term option \<Rightarrow> panic + bool" where
  "term_differs s field =
     (case s of
        None \<Rightarrow> Inr False
      | Some x \<Rightarrow> (case field of
                    None \<Rightarrow> Inl NilDereference
                  | Some y \<Rightarrow> Inr (\<not> Term_Equal y x)))"

text \<open>
  The two graph guards: \<open>g != nil && (quad.Graph == nil || !quad.Graph.Equal(g))\<close> and
  \<open>g == nil && quad.Graph != nil\<close>.
\<close>

definition graph_differs :: "Term option \<Rightarrow> Term option \<Rightarrow> bool" where
  "graph_differs g qg =
     (case g of
        Some x \<Rightarrow> (case qg of None \<Rightarrow> True | Some y \<Rightarrow> \<not> Term_Equal y x)
      | None \<Rightarrow> qg \<noteq> None)"

text \<open>The chain of \<open>continue\<close> guards in the loop body: does the loop skip this quad?\<close>

definition skips ::
  "Quad \<Rightarrow> Term option \<Rightarrow> Term option \<Rightarrow> Term option \<Rightarrow> Term option \<Rightarrow> panic + bool" where
  "skips quad s p ob g =
     (case term_differs s (Subject quad) of
        Inl e \<Rightarrow> Inl e
      | Inr ds \<Rightarrow>
          if ds then Inr True
          else (case term_differs p (Predicate quad) of
                  Inl e \<Rightarrow> Inl e
                | Inr dp \<Rightarrow>
                    if dp then Inr True
                    else (case term_differs ob (Object quad) of
                            Inl e \<Rightarrow> Inl e
                          | Inr dob \<Rightarrow>
                              if dob then Inr True
                              else Inr (graph_differs g (Graph quad)))))"

text \<open>
  \<open>One\<close> over the sequence the channel delivers: the first quad that no guard skips, or
  nil.
\<close>

fun Dataset_One ::
  "heap \<Rightarrow> quad_ptr list \<Rightarrow> Term option \<Rightarrow> Term option \<Rightarrow> Term option \<Rightarrow> Term option
     \<Rightarrow> panic + quad_ptr" where
  "Dataset_One h [] s p ob g = Inr Nil"
| "Dataset_One h (qp # ch) s p ob g =
     (case deref h qp of
        Inl e \<Rightarrow> Inl e
      | Inr quad \<Rightarrow>
          (case skips quad s p ob g of
             Inl e \<Rightarrow> Inl e
           | Inr sk \<Rightarrow> if sk then Dataset_One h ch s p ob g else Inr qp))"

text \<open>
  \<open>All\<close>: the loop appends every quad that no guard skips, so the result keeps the
  order of the channel. The accumulator \<open>acc\<close> is the slice \<open>quads\<close> built so far.
\<close>

fun All_loop ::
  "heap \<Rightarrow> quad_ptr list \<Rightarrow> Term option \<Rightarrow> Term option \<Rightarrow> Term option \<Rightarrow> Term option
     \<Rightarrow> quad_ptr list \<Rightarrow> panic + quad_ptr list" where
  "All_loop h [] s p ob g acc = Inr acc"
| "All_loop h (qp # ch) s p ob g acc =
     (case deref h qp of
        Inl e \<Rightarrow> Inl e
      | Inr quad \<Rightarrow>
          (case skips quad s p ob g of
             Inl e \<Rightarrow> Inl e
           | Inr sk \<Rightarrow>
               if sk then All_loop h ch s p ob g acc
               else All_loop h ch s p ob g (acc @ [qp])))"

definition Dataset_All ::
  "heap \<Rightarrow> quad_ptr list \<Rightarrow> Term option \<Rightarrow> Term option \<Rightarrow> Term option \<Rightarrow> Term option
     \<Rightarrow> panic + quad_ptr list" where
  "Dataset_All h ch s p ob g = All_loop h ch s p ob g []"

text \<open>
  The matching rule in the spec's words (section 4.2): a subject, predicate or object
  passed as nil matches any value; the graph parameter matches only a quad whose graph
  is the same, nil matching only the default graph.
\<close>

definition pattern_matches ::
  "Quad \<Rightarrow> Term option \<Rightarrow> Term option \<Rightarrow> Term option \<Rightarrow> Term option \<Rightarrow> bool" where
  "pattern_matches quad s p ob g =
     ((s = None \<or> Subject quad = s) \<and> (p = None \<or> Predicate quad = p) \<and>
      (ob = None \<or> Object quad = ob) \<and> Graph quad = g)"

text \<open>Is the quad behind a stored pointer one the pattern matches?\<close>

definition matching_ptr ::
  "heap \<Rightarrow> Term option \<Rightarrow> Term option \<Rightarrow> Term option \<Rightarrow> Term option \<Rightarrow> quad_ptr \<Rightarrow> bool" where
  "matching_ptr h s p ob g r =
     (case deref h r of Inl e \<Rightarrow> False | Inr quad \<Rightarrow> pattern_matches quad s p ob g)"

text \<open>
  The number of distinct quad values among the keys of two datasets: the size of the
  value-deduplicated union of the spec (sections 4.2 and 8).
\<close>

definition value_union_size :: "heap \<Rightarrow> Dataset \<Rightarrow> Dataset \<Rightarrow> nat" where
  "value_union_size h d1 d2 = fcard (deref h |`| (quads d1 |\<union>| quads d2))"

section \<open>Flat serialization\<close>

text \<open>
  \<open>Dataset.String\<close>: the loop appends \<open>quad.String() + "\n"\<close> for every pointer of the
  channel; \<open>toString\<close> is the text built so far. Calling the value-receiver method
  \<open>String\<close> through a nil pointer panics.
\<close>

fun String_loop :: "heap \<Rightarrow> quad_ptr list \<Rightarrow> string \<Rightarrow> panic + string" where
  "String_loop h [] toString = Inr toString"
| "String_loop h (qp # ch) toString =
     (case deref h qp of
        Inl e \<Rightarrow> Inl e
      | Inr quad \<Rightarrow> String_loop h ch (toString @ Quad_String quad @ [CHR 0x0A]))"

definition Dataset_String :: "heap \<Rightarrow> quad_ptr list \<Rightarrow> panic + string" where
  "Dataset_String h ch = String_loop h ch []"

text \<open>
  An \<open>error\<close> value carries its message. A serializer takes the text already written to
  the writer \<open>w\<close> and returns the text after the call together with the error it
  returns (\<open>None\<close> for nil); the results of \<open>Fprintln\<close> and \<open>Fprintf\<close> are not
  checked by the source.
\<close>

datatype error = Error string

type_synonym written = "string \<times> error option"

text \<open>\<open>serializeNQuads\<close>: \<open>Fprintln(w, quad.String())\<close> for every pointer, then nil.\<close>

definition serializeNQuads :: "heap \<Rightarrow> quad_ptr list \<Rightarrow> string \<Rightarrow> panic + written" where
  "serializeNQuads h ch w =
     (case String_loop h ch w of Inl e \<Rightarrow> Inl e | Inr out \<Rightarrow> Inr (out, None))"

text \<open>
  The line of one quad in the spec's words (section 6): \<open>S P O [G] .\<close> on its own line,
  the terms in their canonical encoding, the graph term omitted for a default-graph
  quad.
\<close>

definition flat_line :: "Term \<Rightarrow> Term \<Rightarrow> Term \<Rightarrow> Term option \<Rightarrow> string" where
  "flat_line s p ob g =
     Term_String s @ '' '' @ Term_String p @ '' '' @ Term_String ob @
     (case g of None \<Rightarrow> [] | Some x \<Rightarrow> '' '' @ Term_String x) @ '' .'' @ [CHR 0x0A]"

definition flat_line_of :: "heap \<Rightarrow> quad_ptr \<Rightarrow> string" where
  "flat_line_of h q =
     (case deref h q of
        Inr quad \<Rightarrow>
          (case (Subject quad, Predicate quad, Object quad) of
             (Some s, Some p, Some ob) \<Rightarrow> flat_line s p ob (Graph quad)
           | _ \<Rightarrow> [])
      | Inl e \<Rightarrow> [])"

section \<open>TriG serialization\<close>

text \<open>
  \<open>graphQuads\<close> is a \<open>map[string][]*Quad\<close>: an association list with one entry per key.
  \<open>graphQuads[k] = append(graphQuads[k], quad)\<close> extends the entry of \<open>k\<close> or makes one.
\<close>

fun bucket_append ::
  "(string \<times> quad_ptr list) list \<Rightarrow> string \<Rightarrow> quad_ptr \<Rightarrow> (string \<times> quad_ptr list) list" where
  "bucket_append [] k q = [(k, [q])]"
| "bucket_append ((k', qs) # m) k q =
     (if k' = k then (k', qs @ [q]) # m else (k', qs) # bucket_append m k q)"

definition bucket_of :: "(string \<times> quad_ptr list) list \<Rightarrow> string \<Rightarrow> quad_ptr list" where
  "bucket_of m k = (case map_of m k of None \<Rightarrow> [] | Some qs \<Rightarrow> qs)"

text \<open>
  The loop \<open>for graphName, quads := range graphQuads\<close> visits every key once, in an
  order Go leaves open: \<open>range_keys m ks\<close> says that \<open>ks\<close> is one such order.
\<close>

definition range_keys :: "(string \<times> quad_ptr list) list \<Rightarrow> string list \<Rightarrow> bool" where
  "range_keys m ks = (distinct ks \<and> set ks = set (map fst m))"

text \<open>The grouping loop of \<open>serializeTrig\<close>, with its two accumulators.\<close>

fun group_loop ::
  "heap \<Rightarrow> quad_ptr list \<Rightarrow> (string \<times> quad_ptr list) list \<Rightarrow> quad_ptr list
     \<Rightarrow> panic + ((string \<times> quad_ptr list) list \<times> quad_ptr list)" where
  "group_loop h [] graphQuads defaultGraphQuads = Inr (graphQuads, defaultGraphQuads)"
| "group_loop h (qp # ch) graphQuads defaultGraphQuads =
     (case deref h qp of
        Inl e \<Rightarrow> Inl e
      | Inr quad \<Rightarrow>
          (case Graph quad of
             None \<Rightarrow> group_loop h ch graphQuads (defaultGraphQuads @ [qp])
           | Some g \<Rightarrow>
               group_loop h ch (bucket_append graphQuads (Term_String g) qp)
                 defaultGraphQuads))"

text \<open>\<open>Fprintf(w, "  %s %s %s .\n", ...)\<close> for every quad of a bucket.\<close>

definition triple_line :: "Quad \<Rightarrow> string" where
  "triple_line quad =
     ''  '' @ encodeTerm (Subject quad) @ '' '' @ encodeTerm (Predicate quad) @ '' '' @
     encodeTerm (Object quad) @ '' .'' @ [CHR 0x0A]"

fun triple_lines :: "heap \<Rightarrow> quad_ptr list \<Rightarrow> string \<Rightarrow> panic + string" where
  "triple_lines h [] w = Inr w"
| "triple_lines h (qp # qs) w =
     (case deref h qp of
        Inl e \<Rightarrow> Inl e
      | Inr quad \<Rightarrow> triple_lines h qs (w @ triple_line quad))"

text \<open>The loop over the named buckets, in the order \<open>ks\<close> the range delivers the keys.\<close>

fun named_loop ::
  "heap \<Rightarrow> (string \<times> quad_ptr list) list \<Rightarrow> string list \<Rightarrow> string \<Rightarrow> panic + string" where
  "named_loop h graphQuads [] w = Inr w"
| "named_loop h graphQuads (graphName # ks) w =
     (case triple_lines h (bucket_of graphQuads graphName)
             (w @ [CHR 0x0A] @ graphName @ '' {'' @ [CHR 0x0A]) of
        Inl e \<Rightarrow> Inl e
      | Inr w' \<Rightarrow> named_loop h graphQuads ks (w' @ ''}'' @ [CHR 0x0A]))"

text \<open>
  \<open>serializeTrig\<close>: group, write the default block when it has quads, write the named
  blocks; \<open>order\<close> gives, for the map the grouping built, the order of its range loop.
\<close>

definition serializeTrig ::
  "heap \<Rightarrow> quad_ptr list \<Rightarrow> ((string \<times> quad_ptr list) list \<Rightarrow> string list) \<Rightarrow> string
     \<Rightarrow> panic + written" where
  "serializeTrig h ch order w =
     (case group_loop h ch [] [] of
        Inl e \<Rightarrow> Inl e
      | Inr (graphQuads, defaultGraphQuads) \<Rightarrow>
          (case (if length defaultGraphQuads > 0
                 then (case triple_lines h defaultGraphQuads (w @ ''{'' @ [CHR 0x0A]) of
                         Inl e \<Rightarrow> Inl e
                       | Inr w' \<Rightarrow> Inr (w' @ ''}'' @ [CHR 0x0A]))
                 else Inr w) of
             Inl e \<Rightarrow> Inl e
           | Inr w1 \<Rightarrow>
               (case named_loop h graphQuads (order graphQuads) w1 of
                  Inl e \<Rightarrow> Inl e
                | Inr w2 \<Rightarrow> Inr (w2, None))))"

text \<open>
  The buckets in the spec's words (section 4.4): the quads are partitioned by graph
  key, the canonical text of the graph term, an absent graph giving the default bucket.
\<close>

definition graph_key :: "heap \<Rightarrow> quad_ptr \<Rightarrow> string option" where
  "graph_key h q =
     (case deref h q of
        Inl e \<Rightarrow> None
      | Inr quad \<Rightarrow> map_option Term_String (Graph quad))"

definition default_bucket :: "heap \<Rightarrow> quad_ptr list \<Rightarrow> quad_ptr list" where
  "default_bucket h ch = filter (\<lambda>q. graph_key h q = None) ch"

definition named_bucket :: "heap \<Rightarrow> quad_ptr list \<Rightarrow> string \<Rightarrow> quad_ptr list" where
  "named_bucket h ch k = filter (\<lambda>q. graph_key h q = Some k) ch"

definition graph_keys :: "heap \<Rightarrow> quad_ptr list \<Rightarrow> string list" where
  "graph_keys h ch = remdups (concat (map (\<lambda>q. case graph_key h q of None \<Rightarrow> [] | Some k \<Rightarrow> [k]) ch))"

text \<open>
  A triple line in the spec's words (section 4.4): \<open>S P O .\<close> with the canonical
  encodings of the three terms, here with the two spaces in front and the newline
  behind that the output has.
\<close>

definition spo_line :: "Term \<Rightarrow> Term \<Rightarrow> Term \<Rightarrow> string" where
  "spo_line s p ob =
     ''  '' @ Term_String s @ '' '' @ Term_String p @ '' '' @ Term_String ob @ '' .'' @
     [CHR 0x0A]"

definition spo_line_of :: "heap \<Rightarrow> quad_ptr \<Rightarrow> string" where
  "spo_line_of h q =
     (case deref h q of
        Inr quad \<Rightarrow>
          (case (Subject quad, Predicate quad, Object quad) of
             (Some s, Some p, Some ob) \<Rightarrow> spo_line s p ob
           | _ \<Rightarrow> [])
      | Inl e \<Rightarrow> [])"

definition lines_of :: "heap \<Rightarrow> quad_ptr list \<Rightarrow> string" where
  "lines_of h qs = concat (map (spo_line_of h) qs)"

definition default_block :: "heap \<Rightarrow> quad_ptr list \<Rightarrow> string" where
  "default_block h ch =
     (if default_bucket h ch = [] then []
      else ''{'' @ [CHR 0x0A] @ lines_of h (default_bucket h ch) @ ''}'' @ [CHR 0x0A])"

definition named_block :: "heap \<Rightarrow> quad_ptr list \<Rightarrow> string \<Rightarrow> string" where
  "named_block h ch k =
     [CHR 0x0A] @ k @ '' {'' @ [CHR 0x0A] @ lines_of h (named_bucket h ch k) @ ''}'' @ [CHR 0x0A]"

text \<open>The block written for one key of the map the grouping loop built.\<close>

definition block_of :: "heap \<Rightarrow> (string \<times> quad_ptr list) list \<Rightarrow> string \<Rightarrow> string" where
  "block_of h m k = [CHR 0x0A] @ k @ '' {'' @ [CHR 0x0A] @ lines_of h (bucket_of m k) @ ''}'' @ [CHR 0x0A]"

text \<open>One possible order of the range loop: the keys as they were first inserted.\<close>

definition first_seen :: "(string \<times> quad_ptr list) list \<Rightarrow> string list" where
  "first_seen m = remdups (map fst m)"

section \<open>The format registry and the string functions of the parser\<close>

text \<open>
  The package-level maps \<open>mimeParser\<close> and \<open>mimeSerializer\<close>. Indexing a Go map with a
  key it does not hold gives the zero value, here the empty string.
\<close>

definition mimeParser :: "(string \<times> string) list" where
  "mimeParser =
     [(''text/turtle'', ''turtle''),
      (''application/trig'', ''trig''),
      (''application/ld+json'', ''jsonld''),
      (''application/sparql-update'', ''internal'')]"

definition mimeSerializer :: "(string \<times> string) list" where
  "mimeSerializer =
     [(''application/ld+json'', ''jsonld''),
      (''application/trig'', ''trig''),
      (''text/html'', ''internal'')]"

definition registry :: "(string \<times> string) list \<Rightarrow> string \<Rightarrow> string" where
  "registry m k = (case map_of m k of None \<Rightarrow> [] | Some v \<Rightarrow> v)"

text \<open>
  The functions of Go's \<open>strings\<close> package that \<open>parseTrig\<close> calls. A Go string is a
  sequence of bytes, here a list of 8-bit characters. \<open>Contains\<close> and \<open>Split\<close> are needed
  for a separator of one character only.
\<close>

definition HasPrefix :: "string \<Rightarrow> string \<Rightarrow> bool" where
  "HasPrefix s pre = (take (length pre) s = pre)"

definition HasSuffix :: "string \<Rightarrow> string \<Rightarrow> bool" where
  "HasSuffix s suf = (length suf \<le> length s \<and> drop (length s - length suf) s = suf)"

text \<open>
  \<open>strings.TrimSpace\<close> removes, from both ends, the runes that \<open>unicode.IsSpace\<close> accepts,
  decoding the bytes as UTF-8. These runes are U+0009 to U+000D, U+0020, U+0085,
  U+00A0, U+1680, U+2000 to U+200A, U+2028, U+2029, U+202F, U+205F and U+3000;
  \<open>space_runes\<close> lists their UTF-8 encodings. A byte sequence that is not valid UTF-8
  decodes to the error rune, one byte wide, which is not white space. So the rune at the
  front of a text is white space exactly when the text starts with one of the listed
  encodings, and the rune at its end (\<open>DecodeLastRuneInString\<close> steps back to the nearest
  byte that starts a rune) exactly when the text ends with one. No encoding in the list
  is a prefix or a suffix of another.
\<close>

definition space_runes :: "string list" where
  "space_runes =
     map (\<lambda>c. [c]) [CHR 0x09, CHR 0x0A, CHR 0x0B, CHR 0x0C, CHR 0x0D, CHR 0x20] @
     map (\<lambda>c. [CHR 0xC2, c]) [CHR 0x85, CHR 0xA0] @
     map (\<lambda>c. [CHR 0xE1, CHR 0x9A, c]) [CHR 0x80] @
     map (\<lambda>c. [CHR 0xE2, CHR 0x80, c])
       [CHR 0x80, CHR 0x81, CHR 0x82, CHR 0x83, CHR 0x84, CHR 0x85, CHR 0x86, CHR 0x87,
        CHR 0x88, CHR 0x89, CHR 0x8A, CHR 0xA8, CHR 0xA9, CHR 0xAF] @
     map (\<lambda>c. [CHR 0xE2, CHR 0x81, c]) [CHR 0x9F] @
     map (\<lambda>c. [CHR 0xE3, CHR 0x80, c]) [CHR 0x80]"

text \<open>
  The width in bytes of the white space rune a text starts with, or ends with; 0 when
  that rune is not white space or the text is empty.
\<close>

definition leading_space :: "string \<Rightarrow> nat" where
  "leading_space s =
     (case find (HasPrefix s) space_runes of None \<Rightarrow> 0 | Some rune \<Rightarrow> length rune)"

definition trailing_space :: "string \<Rightarrow> nat" where
  "trailing_space s =
     (case find (HasSuffix s) space_runes of None \<Rightarrow> 0 | Some rune \<Rightarrow> length rune)"

text \<open>\<open>TrimLeftFunc\<close> and \<open>TrimRightFunc\<close> with \<open>unicode.IsSpace\<close>, one rune at a time.\<close>

function TrimLeft :: "string \<Rightarrow> string" where
  "TrimLeft s = (if leading_space s = 0 then s else TrimLeft (drop (leading_space s) s))"
  by pat_completeness auto
termination
proof (relation "measure length")
  fix s :: string
  assume "leading_space s \<noteq> 0"
  then obtain rune where f: "find (HasPrefix s) space_runes = Some rune"
    and w: "leading_space s = length rune" "rune \<noteq> []"
    by (auto simp: leading_space_def split: option.splits)
  from f have "take (length rune) s = rune"
    by (auto simp: find_Some_iff HasPrefix_def)
  with w(2) have "s \<noteq> []" by auto
  with w show "(drop (leading_space s) s, s) \<in> measure length" by simp
qed simp

function TrimRight :: "string \<Rightarrow> string" where
  "TrimRight s =
     (if trailing_space s = 0 then s else TrimRight (take (length s - trailing_space s) s))"
  by pat_completeness auto
termination
proof (relation "measure length")
  fix s :: string
  assume "trailing_space s \<noteq> 0"
  then obtain rune where f: "find (HasSuffix s) space_runes = Some rune"
    and w: "trailing_space s = length rune" "rune \<noteq> []"
    by (auto simp: trailing_space_def split: option.splits)
  from f have "length rune \<le> length s"
    by (auto simp: find_Some_iff HasSuffix_def)
  with w show "(take (length s - trailing_space s) s, s) \<in> measure length"
    by (cases rune) auto
qed simp

definition TrimSpace :: "string \<Rightarrow> string" where
  "TrimSpace s = TrimRight (TrimLeft s)"

definition Contains :: "string \<Rightarrow> char \<Rightarrow> bool" where
  "Contains s c = (c \<in> set s)"

fun Split :: "string \<Rightarrow> char \<Rightarrow> string list" where
  "Split [] sep = [] # []"
| "Split (c # s) sep =
     (if c = sep then [] # Split s sep
      else (case Split s sep of
              [] \<Rightarrow> [c] # []
            | part # parts \<Rightarrow> (c # part) # parts))"

fun Join :: "string list \<Rightarrow> string \<Rightarrow> string" where
  "Join [] sep = []"
| "Join [x] sep = x"
| "Join (x # y # xs) sep = x @ sep @ Join (y # xs) sep"

section \<open>Parsing\<close>

text \<open>
  A triple as the loops of \<open>Parse\<close> and \<open>processTripleLines\<close> pass it to \<open>AddTriple\<close> and
  \<open>AddQuad\<close>: the three terms after the conversion (\<open>rdf2term\<close>, \<open>jterm2term\<close>).
\<close>

type_synonym triple = "Term option \<times> Term option \<times> Term option"

text \<open>
  The collaborators of section 6 of the spec are parameters. The Turtle grammar parser
  takes the base IRI and the text and yields the triples or fails
  (\<open>rdf.NewParser(d.uri).Parse(reader)\<close> and \<open>IterTriples\<close>); the JSON-LD processor reads
  the text (\<open>jsonld.ReadJSON\<close>) and turns the result into triples under the given
  options (\<open>jsonld.ToRDF\<close> and \<open>IterTriples\<close>).
\<close>

record Options =
  Base :: string
  ProduceGeneralizedRdf :: bool

record 'j collaborators =
  turtle_Parse :: "string \<Rightarrow> string \<Rightarrow> error + triple list"
  ReadJSON :: "string \<Rightarrow> error + 'j"
  ToRDF :: "'j \<Rightarrow> Options \<Rightarrow> error + triple list"

text \<open>The loops \<open>for t := range ... { d.AddTriple(...) }\<close> and \<open>{ d.AddQuad(...) }\<close>.\<close>

fun AddTriple_loop :: "heap \<Rightarrow> Dataset \<Rightarrow> triple list \<Rightarrow> heap \<times> Dataset" where
  "AddTriple_loop h d [] = (h, d)"
| "AddTriple_loop h d ((s, p, ob) # ts) =
     (case AddTriple h d s p ob of (h', d') \<Rightarrow> AddTriple_loop h' d' ts)"

fun AddQuad_loop :: "heap \<Rightarrow> Dataset \<Rightarrow> triple list \<Rightarrow> Term option \<Rightarrow> heap \<times> Dataset" where
  "AddQuad_loop h d [] currentGraph = (h, d)"
| "AddQuad_loop h d ((s, p, ob) # ts) currentGraph =
     (case AddQuad h d s p ob currentGraph of
        (h', d') \<Rightarrow> AddQuad_loop h' d' ts currentGraph)"

text \<open>
  \<open>processTripleLines\<close>: the lines are joined by newlines and given to the Turtle
  parser with the dataset's URI; when the parser fails the function returns at once.
\<close>

definition processTripleLines ::
  "(string \<Rightarrow> string \<Rightarrow> error + triple list) \<Rightarrow> heap \<Rightarrow> Dataset \<Rightarrow> string list \<Rightarrow> Term option
     \<Rightarrow> heap \<times> Dataset" where
  "processTripleLines turtle h d lines currentGraph =
     (let content = Join lines [CHR 0x0A]
      in case turtle (uri d) content of
           Inl err \<Rightarrow> (h, d)
         | Inr ts \<Rightarrow> AddQuad_loop h d ts currentGraph)"

text \<open>\<open>parseGraphName\<close>: \<open>graphStr[1 : len(graphStr)-1]\<close> between angle brackets.\<close>

definition parseGraphName :: "string \<Rightarrow> Term" where
  "parseGraphName s =
     (let graphStr = TrimSpace s
      in if HasPrefix graphStr ''<'' \<and> HasSuffix graphStr ''>''
         then Resource (drop 1 (take (length graphStr - 1) graphStr))
         else Resource graphStr)"

text \<open>
  The loop of \<open>parseTrig\<close> over the lines, with the variables \<open>currentGraph\<close> and
  \<open>currentTripleLines\<close>; the last equation is the code after the loop.
\<close>

fun trig_loop ::
  "(string \<Rightarrow> string \<Rightarrow> error + triple list) \<Rightarrow> string list \<Rightarrow> Term option \<Rightarrow> string list
     \<Rightarrow> heap \<Rightarrow> Dataset \<Rightarrow> heap \<times> Dataset" where
  "trig_loop turtle (raw # lines) currentGraph currentTripleLines h d =
     (let line = TrimSpace raw
      in if line = [] \<or> HasPrefix line ''#''
         then trig_loop turtle lines currentGraph currentTripleLines h d
         else if HasPrefix line ''@prefix''
         then trig_loop turtle lines currentGraph currentTripleLines h d
         else if Contains line CHR ''{''
         then (case Split line CHR ''{'' of
                 part0 # part1 # parts \<Rightarrow>
                   (let graphPart = TrimSpace part0
                    in if graphPart = []
                       then trig_loop turtle lines None currentTripleLines h d
                       else trig_loop turtle lines (Some (parseGraphName graphPart))
                              currentTripleLines h d)
               | _ \<Rightarrow> trig_loop turtle lines currentGraph currentTripleLines h d)
         else if Contains line CHR ''}''
         then (if length currentTripleLines > 0
               then (case processTripleLines turtle h d currentTripleLines currentGraph of
                       (h', d') \<Rightarrow> trig_loop turtle lines None [] h' d')
               else trig_loop turtle lines None currentTripleLines h d)
         else if line \<noteq> []
         then (if HasSuffix line ''.''
               then (case processTripleLines turtle h d (currentTripleLines @ [line])
                            currentGraph of
                       (h', d') \<Rightarrow> trig_loop turtle lines currentGraph [] h' d')
               else trig_loop turtle lines currentGraph (currentTripleLines @ [line]) h d)
         else trig_loop turtle lines currentGraph currentTripleLines h d)"
| "trig_loop turtle [] currentGraph currentTripleLines h d =
     (if length currentTripleLines > 0
      then processTripleLines turtle h d currentTripleLines currentGraph
      else (h, d))"

text \<open>\<open>parseTrig\<close> reads the whole input, splits it into lines and returns nil.\<close>

definition parseTrig ::
  "(string \<Rightarrow> string \<Rightarrow> error + triple list) \<Rightarrow> heap \<Rightarrow> Dataset \<Rightarrow> string
     \<Rightarrow> heap \<times> Dataset \<times> error option" where
  "parseTrig turtle h d content =
     (case trig_loop turtle (Split content (CHR 0x0A)) None [] h d of
        (h', d') \<Rightarrow> (h', d', None))"

text \<open>\<open>Parse\<close>; the reader is the text it delivers.\<close>

definition Parse ::
  "'j collaborators \<Rightarrow> heap \<Rightarrow> Dataset \<Rightarrow> string \<Rightarrow> string \<Rightarrow> heap \<times> Dataset \<times> error option" where
  "Parse c h d reader mime =
     (let parserName =
            (if length (registry mimeParser mime) = 0 then ''guess''
             else registry mimeParser mime)
      in if parserName = ''trig'' then parseTrig (turtle_Parse c) h d reader
         else if parserName = ''jsonld''
         then (case ReadJSON c reader of
                 Inl err \<Rightarrow> (h, d, Some err)
               | Inr jsonData \<Rightarrow>
                   (case ToRDF c jsonData \<lparr>Base = [], ProduceGeneralizedRdf = False\<rparr> of
                      Inl err \<Rightarrow> (h, d, Some err)
                    | Inr ts \<Rightarrow>
                        (case AddTriple_loop h d ts of (h', d') \<Rightarrow> (h', d', None))))
         else if parserName = ''turtle''
         then (case turtle_Parse c (uri d) reader of
                 Inl err \<Rightarrow> (h, d, Some err)
               | Inr ts \<Rightarrow> (case AddTriple_loop h d ts of (h', d') \<Rightarrow> (h', d', None)))
         else (h, d, Some (Error (parserName @ '' is not supported by the parser''))))"

text \<open>
  \<open>Serialize\<close>. \<open>serializeJSONLD\<close> builds its output from \<open>Graph\<close> views and the JSON
  encoder, which are not among the sources; it is a parameter.
\<close>

definition Serialize ::
  "(heap \<Rightarrow> quad_ptr list \<Rightarrow> string \<Rightarrow> panic + written) \<Rightarrow> heap \<Rightarrow> quad_ptr list
     \<Rightarrow> ((string \<times> quad_ptr list) list \<Rightarrow> string list) \<Rightarrow> string \<Rightarrow> string \<Rightarrow> panic + written" where
  "Serialize serializeJSONLD h ch order w mime =
     (let serializerName = registry mimeSerializer mime
      in if serializerName = ''trig'' then serializeTrig h ch order w
         else if serializerName = ''jsonld'' then serializeJSONLD h ch w
         else serializeNQuads h ch w)"

text \<open>
  The statement groups of a TriG text: the buffers that the loop of \<open>parseTrig\<close> hands
  to \<open>processTripleLines\<close>, each with the graph that is current at that moment, in the
  order of the calls. The function follows the branches of \<open>trig_loop\<close>.
\<close>

fun trig_groups ::
  "string list \<Rightarrow> Term option \<Rightarrow> string list \<Rightarrow> (string list \<times> Term option) list" where
  "trig_groups (raw # lines) currentGraph currentTripleLines =
     (let line = TrimSpace raw
      in if line = [] \<or> HasPrefix line ''#''
         then trig_groups lines currentGraph currentTripleLines
         else if HasPrefix line ''@prefix''
         then trig_groups lines currentGraph currentTripleLines
         else if Contains line CHR ''{''
         then (case Split line CHR ''{'' of
                 part0 # part1 # parts \<Rightarrow>
                   (let graphPart = TrimSpace part0
                    in if graphPart = []
                       then trig_groups lines None currentTripleLines
                       else trig_groups lines (Some (parseGraphName graphPart))
                              currentTripleLines)
               | _ \<Rightarrow> trig_groups lines currentGraph currentTripleLines)
         else if Contains line CHR ''}''
         then (if length currentTripleLines > 0
               then (currentTripleLines, currentGraph) # trig_groups lines None []
               else trig_groups lines None currentTripleLines)
         else if line \<noteq> []
         then (if HasSuffix line ''.''
               then (currentTripleLines @ [line], currentGraph) #
                      trig_groups lines currentGraph []
               else trig_groups lines currentGraph (currentTripleLines @ [line]))
         else trig_groups lines currentGraph currentTripleLines)"
| "trig_groups [] currentGraph currentTripleLines =
     (if length currentTripleLines > 0 then [(currentTripleLines, currentGraph)] else [])"


text \<open>The quad that \<open>AddQuad\<close> builds from a triple and the current graph.\<close>

definition mk_quad :: "Term option \<Rightarrow> triple \<Rightarrow> Quad" where
  "mk_quad g t = \<lparr>Subject = fst t, Predicate = fst (snd t), Object = snd (snd t), Graph = g\<rparr>"

text \<open>The pointers of the next \<open>n\<close> allocations in heap \<open>h\<close>.\<close>

definition fresh_ptrs :: "heap \<Rightarrow> nat \<Rightarrow> quad_ptr fset" where
  "fresh_ptrs h n = Ptr |`| fset_of_list [length h ..< length h + n]"

section \<open>Example states\<close>

text \<open>The terms and quads of the repository's tests.\<close>

definition term_a :: "Term option" where
  "term_a = Some (Resource ''a'')"

definition term_b :: "Term option" where
  "term_b = Some (Resource ''b'')"

definition term_c :: "Term option" where
  "term_c = Some (Resource ''c'')"

definition term_g :: "Term option" where
  "term_g = Some (Resource ''g'')"

definition quad_abcg :: Quad where
  "quad_abcg = \<lparr>Subject = term_a, Predicate = term_b, Object = term_c, Graph = term_g\<rparr>"

definition quad_abc :: Quad where
  "quad_abc = \<lparr>Subject = term_a, Predicate = term_b, Object = term_c, Graph = None\<rparr>"

definition testDatasetUri :: string where
  "testDatasetUri = ''https://example.org/dataset''"

text \<open>\<open>AddQuad(a, b, c, g)\<close> on a new dataset, once and twice.\<close>

definition added_once :: "heap \<times> Dataset" where
  "added_once = AddQuad [] (NewDataset testDatasetUri) term_a term_b term_c term_g"

definition added_twice :: "heap \<times> Dataset" where
  "added_twice = AddQuad (fst added_once) (snd added_once) term_a term_b term_c term_g"

text \<open>
  Two datasets in one heap, each holding the triple \<open>a b c\<close> in its default graph, added
  to each by its own \<open>AddTriple\<close> call.
\<close>

definition first_abc :: "heap \<times> Dataset" where
  "first_abc = AddTriple [] (NewDataset testDatasetUri) term_a term_b term_c"

definition second_abc :: "heap \<times> Dataset" where
  "second_abc = AddTriple (fst first_abc) (NewDataset testDatasetUri) term_a term_b term_c"

text \<open>
  A quad \<open>(a, b, c, g)\<close> built by \<open>NewQuad\<close> and added with \<open>Add\<close>, and a second quad of
  the same value built by another \<open>NewQuad\<close> call.
\<close>

definition built_q :: "heap \<times> quad_ptr" where
  "built_q = NewQuad [] term_a term_b term_c term_g"

definition holds_q :: Dataset where
  "holds_q = Add (NewDataset testDatasetUri) (snd built_q)"

definition built_q' :: "heap \<times> quad_ptr" where
  "built_q' = NewQuad (fst built_q) term_a term_b term_c term_g"

text \<open>The triple \<open>a b c\<close> in the default graph and in the named graph \<open>g\<close> of one dataset.\<close>

definition both_graphs :: "heap \<times> Dataset" where
  "both_graphs = AddQuad (fst first_abc) (snd first_abc) term_a term_b term_c term_g"

text \<open>
  Three quads in one dataset: \<open>a b c\<close> in the default graph, \<open>a b g\<close> and \<open>a b c\<close> in the
  named graph \<open>g\<close>.
\<close>

definition two_graphs :: "heap \<times> Dataset" where
  "two_graphs = AddQuad (fst first_abc) (snd first_abc) term_a term_b term_g term_g"

definition three_quads :: "heap \<times> Dataset" where
  "three_quads = AddQuad (fst two_graphs) (snd two_graphs) term_a term_b term_c term_g"

definition quad_abgg :: Quad where
  "quad_abgg = \<lparr>Subject = term_a, Predicate = term_b, Object = term_g, Graph = term_g\<rparr>"

text \<open>One order in which the channel can deliver the three pointers.\<close>

definition three_chan :: "quad_ptr list" where
  "three_chan = [Ptr 2, Ptr 0, Ptr 1]"

section \<open>Stand-ins for the collaborators\<close>

text \<open>
  Concrete collaborators, to run the functions above on concrete input. The Turtle
  stand-in knows two statements and fails on every other text; the JSON-LD stand-in
  knows one document and answers only to the options \<open>Parse\<close> passes. The JSON-LD
  writer stand-in is for calls of \<open>Serialize\<close> that do not reach it.
\<close>

definition demo_turtle :: "string \<Rightarrow> string \<Rightarrow> error + triple list" where
  "demo_turtle base content =
     (if content = ''<a> <b> <c> .'' then Inr [(term_a, term_b, term_c)]
      else if content = ''<a> <b> <g> .'' then Inr [(term_a, term_b, term_g)]
      else Inl (Error ''syntax error''))"

definition quoted :: "string \<Rightarrow> string" where
  "quoted s = [CHR 0x22] @ s @ [CHR 0x22]"

definition jsonld_abc :: string where
  "jsonld_abc =
     ''{'' @ quoted ''@id'' @ '':'' @ quoted ''a'' @ '','' @ quoted ''b'' @ '':{'' @
     quoted ''@id'' @ '':'' @ quoted ''c'' @ ''}}''"

definition demo_ReadJSON :: "string \<Rightarrow> error + string" where
  "demo_ReadJSON content =
     (if content = jsonld_abc then Inr content else Inl (Error ''invalid JSON''))"

definition demo_ToRDF :: "string \<Rightarrow> Options \<Rightarrow> error + triple list" where
  "demo_ToRDF jsonData options =
     (if jsonData = jsonld_abc \<and> Base options = [] \<and> \<not> ProduceGeneralizedRdf options
      then Inr [(term_a, term_b, term_c)]
      else Inl (Error ''cannot convert''))"

definition demo :: "string collaborators" where
  "demo = \<lparr>turtle_Parse = demo_turtle, ReadJSON = demo_ReadJSON, ToRDF = demo_ToRDF\<rparr>"

definition demo_JSONLD :: "heap \<Rightarrow> quad_ptr list \<Rightarrow> string \<Rightarrow> panic + written" where
  "demo_JSONLD h ch w = Inr (w @ ''{}'' @ [CHR 0x0A], None)"



section \<open>Properties of terms and of the pointer store\<close>

lemma Term_Equal_iff: "Term_Equal a b = (a = b)"
  by (induction a b rule: Term_Equal.induct) (auto split: option.splits)

lemma Len_Add_same: "Len (Add (Add d q) q) = Len (Add d q)"
  by (simp add: Len_def Add_def)

lemma fresh_not_stored: "store_ok h d \<Longrightarrow> Ptr (length h) |\<notin>| quads d"
proof
  assume ok: "store_ok h d" and "Ptr (length h) |\<in>| quads d"
  then have "ptr_ok h (Ptr (length h))"
    unfolding store_ok_def by (rule fbspec)
  then show False by (simp add: ptr_ok_def)
qed

lemma ptr_ok_grow: "ptr_ok h q \<Longrightarrow> ptr_ok (h @ [x]) q"
  by (cases q) (simp_all add: ptr_ok_def)

lemma store_ok_AddQuad:
  assumes "store_ok h d" "AddQuad h d s p ob g = (h', d')"
  shows "store_ok h' d'"
proof -
  from assms(2) have h': "h' = h @ [\<lparr>Subject = s, Predicate = p, Object = ob, Graph = g\<rparr>]"
    and d': "quads d' = finsert (Ptr (length h)) (quads d)"
    by (auto simp: AddQuad_def NewQuad_def)
  have "ptr_ok h' q" if "q |\<in>| quads d'" for q
  proof (cases "q = Ptr (length h)")
    case True
    then show ?thesis by (simp add: h' ptr_ok_def)
  next
    case False
    with that d' have "q |\<in>| quads d" by simp
    with assms(1) have "ptr_ok h q" unfolding store_ok_def by (rule fbspec)
    then show ?thesis unfolding h' by (rule ptr_ok_grow)
  qed
  then show ?thesis unfolding store_ok_def by (rule fBallI)
qed

lemma Len_AddQuad:
  assumes "store_ok h d" "AddQuad h d s p ob g = (h', d')"
  shows "Len d' = Suc (Len d)"
proof -
  from assms(2) have "quads d' = finsert (Ptr (length h)) (quads d)"
    by (auto simp: AddQuad_def NewQuad_def)
  with fresh_not_stored[OF assms(1)] show ?thesis
    by (simp add: Len_def fcard_finsert_if)
qed

lemma quads_Merge: "quads (Merge d ch) = quads d |\<union>| fset_of_list ch"
  unfolding Merge_def by (induction ch arbitrary: d) (auto simp: Add_def)

lemma IterQuads_set: "IterQuads d ch \<Longrightarrow> (q \<in> set ch) = (q |\<in>| quads d)"
  unfolding IterQuads_def using fset_of_list_elem[of q ch] by metis

section \<open>Insertion\<close>

text \<open>
  C1 (as the code has it). The store is keyed by the pointer: adding the same pointer
  a second time with \<open>Add\<close> leaves \<open>Len\<close> as it is, while each \<open>AddQuad\<close> call builds a
  new quad object, so two \<open>AddQuad\<close> calls with the same four terms raise \<open>Len\<close> by one
  each.
\<close>

theorem Add_dedup_by_pointer:
  assumes "store_ok h d"
    and "AddQuad h d s p ob g = (h1, d1)"
    and "AddQuad h1 d1 s p ob g = (h2, d2)"
  shows "Len (Add (Add d q) q) = Len (Add d q) \<and> Len d1 = Suc (Len d) \<and> Len d2 = Suc (Len d1)"
proof -
  have "Len d1 = Suc (Len d)"
    using assms(1,2) by (rule Len_AddQuad)
  moreover have "store_ok h1 d1"
    using assms(1,2) by (rule store_ok_AddQuad)
  then have "Len d2 = Suc (Len d1)"
    using assms(3) by (rule Len_AddQuad)
  ultimately show ?thesis by (simp add: Len_Add_same)
qed

text \<open>
  C1, the theorem at a new dataset and the two \<open>AddQuad\<close> calls above.
\<close>

theorem Add_dedup_by_pointer_witness:
  "store_ok [] (NewDataset testDatasetUri) \<and>
   Len (Add (Add (NewDataset testDatasetUri) (Ptr 0)) (Ptr 0)) =
     Len (Add (NewDataset testDatasetUri) (Ptr 0)) \<and>
   Len (snd added_once) = Suc (Len (NewDataset testDatasetUri)) \<and>
   Len (snd added_twice) = Suc (Len (snd added_once))"
proof -
  have ok: "store_ok [] (NewDataset testDatasetUri)"
    by (simp add: store_ok_def NewDataset_def)
  have e1: "AddQuad [] (NewDataset testDatasetUri) term_a term_b term_c term_g =
      (fst added_once, snd added_once)"
    by (simp add: added_once_def)
  have e2: "AddQuad (fst added_once) (snd added_once) term_a term_b term_c term_g =
      (fst added_twice, snd added_twice)"
    by (simp add: added_twice_def)
  from Add_dedup_by_pointer[OF ok e1 e2, of "Ptr 0"] ok show ?thesis by simp
qed

text \<open>
  C1 as stated fails: after \<open>AddQuad(a, b, c, g)\<close> twice on a new dataset, \<open>Len\<close> is 2,
  and the two stored pointers lead to equal quads.
\<close>

theorem AddQuad_twice_counterexample:
  "Len (snd added_once) = 1 \<and> Len (snd added_twice) = 2 \<and>
   deref (fst added_twice) (Ptr 0) = Inr quad_abcg \<and>
   deref (fst added_twice) (Ptr 1) = Inr quad_abcg"
  by (simp add: added_once_def added_twice_def AddQuad_def NewQuad_def NewDataset_def Len_def
      fcard_finsert_if deref_def quad_abcg_def)

section \<open>Merge and removal\<close>

lemma value_union_le: "value_union_size h d1 d2 \<le> fcard (quads d1 |\<union>| quads d2)"
  unfolding value_union_size_def by (simp add: fcard.rep_eq card_image_le)

text \<open>
  C2 (as the code has it). \<open>Merge\<close> adds the pointers of the other dataset: after
  \<open>d1.Merge(d2)\<close> the key set of \<open>d1\<close> is the union of the two pointer sets and
  \<open>Len\<close> is the size of that union, which is at least the number of distinct quad
  values in it.
\<close>

theorem Merge_Len_pointer_union:
  assumes "IterQuads d2 ch"
  shows "quads (Merge d1 ch) = quads d1 |\<union>| quads d2 \<and>
         Len (Merge d1 ch) = fcard (quads d1 |\<union>| quads d2) \<and>
         value_union_size h d1 d2 \<le> Len (Merge d1 ch)"
proof -
  from assms have "fset_of_list ch = quads d2" by (simp add: IterQuads_def)
  then have q: "quads (Merge d1 ch) = quads d1 |\<union>| quads d2" by (simp add: quads_Merge)
  then show ?thesis using value_union_le[of h d1 d2] by (simp add: Len_def)
qed

lemma first_abc_eq: "first_abc = ([quad_abc], \<lparr>quads = {|Ptr 0|}, uri = testDatasetUri, self_term = Resource testDatasetUri\<rparr>)"
  by (simp add: first_abc_def AddTriple_def NewQuad_def NewDataset_def quad_abc_def)

lemma second_abc_eq: "second_abc = ([quad_abc, quad_abc], \<lparr>quads = {|Ptr 1|}, uri = testDatasetUri, self_term = Resource testDatasetUri\<rparr>)"
  by (simp add: second_abc_def first_abc_eq AddTriple_def NewQuad_def NewDataset_def quad_abc_def)

text \<open>
  C2 as stated fails: with the triple \<open>a b c\<close> added to each of two datasets by its own
  \<open>AddTriple\<close> call, the value-deduplicated union has one quad, and \<open>Len\<close> after the
  merge is 2.
\<close>

theorem Merge_counterexample:
  "IterQuads (snd second_abc) [Ptr 1] \<and>
   Len (snd first_abc) = 1 \<and> Len (snd second_abc) = 1 \<and>
   value_union_size (fst second_abc) (snd first_abc) (snd second_abc) = 1 \<and>
   Len (Merge (snd first_abc) [Ptr 1]) = 2"
  by (simp add: first_abc_eq second_abc_eq IterQuads_def Len_def value_union_size_def deref_def
      Merge_def Add_def fcard_finsert_if)

text \<open>
  C2, the theorem at the two datasets above.
\<close>

theorem Merge_Len_pointer_union_witness:
  "IterQuads (snd second_abc) [Ptr 1] \<and>
   quads (Merge (snd first_abc) [Ptr 1]) = quads (snd first_abc) |\<union>| quads (snd second_abc) \<and>
   Len (Merge (snd first_abc) [Ptr 1]) = fcard (quads (snd first_abc) |\<union>| quads (snd second_abc)) \<and>
   value_union_size (fst second_abc) (snd first_abc) (snd second_abc)
     \<le> Len (Merge (snd first_abc) [Ptr 1])"
proof -
  have it: "IterQuads (snd second_abc) [Ptr 1]"
    by (simp add: second_abc_eq IterQuads_def)
  from Merge_Len_pointer_union[OF it, of "snd first_abc" "fst second_abc"] it
  show ?thesis by simp
qed

lemma One_stored:
  "Dataset_One h ch s p ob g = Inr r \<Longrightarrow> r = Nil \<or> r \<in> set ch"
  by (induction ch) (auto split: sum.splits if_splits)

lemma Len_Remove_stored: "r |\<in>| quads d \<Longrightarrow> Suc (Len (Remove d r)) = Len d"
proof -
  assume "r |\<in>| quads d"
  then have "Suc (fcard (quads d |-| {|r|})) = fcard (quads d)"
    by (rule fcard_Suc_fminus1)
  moreover have "quads (Remove d r) = quads d |-| {|r|}"
    by (simp add: Remove_def)
  ultimately show ?thesis unfolding Len_def by (simp only:)
qed

text \<open>
  C3 (as the code has it). \<open>Remove\<close> deletes the pointer it is given. For a pointer
  \<open>q\<close> that was not stored before: \<open>Add(q)\<close> then \<open>Remove(q)\<close> gives the dataset back,
  so \<open>Len\<close> is restored; removing a non-nil pointer that a query on the dataset
  returned also brings \<open>Len\<close> back to its value before the \<open>Add\<close>; removing a pointer
  that is not stored changes nothing.
\<close>

theorem Remove_by_pointer:
  assumes "q |\<notin>| quads d"
  shows "Remove (Add d q) q = d \<and>
         Len (Remove (Add d q) q) = Len d \<and>
         (IterQuads (Add d q) ch \<and> Dataset_One h ch s p ob g = Inr r \<and> r \<noteq> Nil
            \<longrightarrow> Len (Remove (Add d q) r) = Len d) \<and>
         (q' |\<notin>| quads (Add d q) \<longrightarrow> Remove (Add d q) q' = Add d q)"
proof -
  have a: "Remove (Add d q) q = d"
    using assms by (simp add: Remove_def Add_def)
  have la: "Len (Add d q) = Suc (Len d)"
    using assms by (simp add: Len_def Add_def fcard_finsert_if)
  have b: "Len (Remove (Add d q) r) = Len d"
    if "IterQuads (Add d q) ch" "Dataset_One h ch s p ob g = Inr r" "r \<noteq> Nil"
  proof -
    from One_stored[OF that(2)] that(3) have "r \<in> set ch" by simp
    with that(1) have "r |\<in>| quads (Add d q)" by (simp add: IterQuads_set)
    from Len_Remove_stored[OF this] la show ?thesis by simp
  qed
  have c: "Remove (Add d q) q' = Add d q" if "q' |\<notin>| quads (Add d q)"
    using that by (simp add: Remove_def)
  from a b c show ?thesis by simp
qed

lemma built_q_eq: "built_q = ([quad_abcg], Ptr 0)"
  by (simp add: built_q_def NewQuad_def quad_abcg_def)

lemma built_q'_eq: "built_q' = ([quad_abcg, quad_abcg], Ptr 1)"
  by (simp add: built_q'_def built_q_eq NewQuad_def quad_abcg_def)

text \<open>
  C3 as stated fails: \<open>Add\<close> of a quad \<open>(a, b, c, g)\<close>, then \<open>Remove\<close> of a second quad
  of the same value built by another \<open>NewQuad\<close> call, leaves \<open>Len\<close> at 1, not at 0.
\<close>

theorem Remove_counterexample:
  "Len (NewDataset testDatasetUri) = 0 \<and> Len holds_q = 1 \<and>
   deref (fst built_q') (snd built_q) = Inr quad_abcg \<and>
   deref (fst built_q') (snd built_q') = Inr quad_abcg \<and>
   Len (Remove holds_q (snd built_q')) = 1"
  by (simp add: holds_q_def built_q_eq built_q'_eq NewDataset_def Len_def Add_def Remove_def
      deref_def fcard_finsert_if)

text \<open>
  C3, the theorem at the dataset that holds the first quad.
\<close>

theorem Remove_by_pointer_witness:
  "snd built_q |\<notin>| quads (NewDataset testDatasetUri) \<and>
   Remove holds_q (snd built_q) = NewDataset testDatasetUri \<and>
   Len (Remove holds_q (snd built_q)) = 0 \<and>
   IterQuads holds_q [Ptr 0] \<and>
   Dataset_One (fst built_q') [Ptr 0] term_a None None term_g = Inr (Ptr 0) \<and>
   Len (Remove holds_q (Ptr 0)) = 0 \<and>
   snd built_q' |\<notin>| quads holds_q \<and>
   Remove holds_q (snd built_q') = holds_q"
proof -
  have n: "snd built_q |\<notin>| quads (NewDataset testDatasetUri)"
    by (simp add: NewDataset_def)
  have it: "IterQuads holds_q [Ptr 0]"
    by (simp add: holds_q_def built_q_eq IterQuads_def Add_def NewDataset_def)
  have one: "Dataset_One (fst built_q') [Ptr 0] term_a None None term_g = Inr (Ptr 0)"
    by (simp add: built_q'_eq deref_def skips_def term_differs_def graph_differs_def
        quad_abcg_def term_a_def term_g_def)
  have n': "snd built_q' |\<notin>| quads holds_q"
    by (simp add: holds_q_def built_q_eq built_q'_eq Add_def NewDataset_def)
  have l0: "Len (NewDataset testDatasetUri) = 0"
    by (simp add: Len_def NewDataset_def)
  from Remove_by_pointer[OF n, of "[Ptr 0]" "fst built_q'" term_a None None term_g "Ptr 0"
      "snd built_q'"] n it one n' l0
  show ?thesis by (simp add: holds_q_def built_q_eq)
qed

section \<open>Pattern queries: the graph parameter\<close>

lemma skips_quad_ok:
  "quad_ok quad \<Longrightarrow> skips quad s p ob g = Inr (\<not> pattern_matches quad s p ob g)"
  by (auto simp: quad_ok_def skips_def term_differs_def graph_differs_def pattern_matches_def
        Term_Equal_iff split: option.splits)

lemma One_char:
  assumes "\<forall>q\<in>set ch. \<exists>quad. deref h q = Inr quad \<and> quad_ok quad"
  shows "\<exists>r. Dataset_One h ch s p ob g = Inr r \<and>
           ((r = Nil \<and> (\<forall>q\<in>set ch. \<not> matching_ptr h s p ob g q)) \<or>
            (r \<in> set ch \<and> matching_ptr h s p ob g r))"
  using assms
proof (induction ch)
  case Nil
  then show ?case by simp
next
  case (Cons a ch)
  from Cons.prems obtain quad where q: "deref h a = Inr quad" "quad_ok quad" by auto
  show ?case
  proof (cases "pattern_matches quad s p ob g")
    case True
    then have "Dataset_One h (a # ch) s p ob g = Inr a" "matching_ptr h s p ob g a"
      using q by (simp_all add: skips_quad_ok matching_ptr_def)
    then show ?thesis by simp
  next
    case False
    then have nh: "\<not> matching_ptr h s p ob g a" using q by (simp add: matching_ptr_def)
    have step: "Dataset_One h (a # ch) s p ob g = Dataset_One h ch s p ob g"
      using q False by (simp add: skips_quad_ok)
    have "\<forall>q\<in>set ch. \<exists>quad. deref h q = Inr quad \<and> quad_ok quad"
      using Cons.prems by simp
    from Cons.IH[OF this] obtain r where r: "Dataset_One h ch s p ob g = Inr r"
        "(r = Nil \<and> (\<forall>q\<in>set ch. \<not> matching_ptr h s p ob g q)) \<or>
         (r \<in> set ch \<and> matching_ptr h s p ob g r)"
      by blast
    from r(2) have *: "(r = Nil \<and> (\<forall>q\<in>set (a # ch). \<not> matching_ptr h s p ob g q)) \<or>
        (r \<in> set (a # ch) \<and> matching_ptr h s p ob g r)"
      using nh by auto
    show ?thesis unfolding step using r(1) * by blast
  qed
qed

lemma All_loop_char:
  assumes "\<forall>q\<in>set ch. \<exists>quad. deref h q = Inr quad \<and> quad_ok quad"
  shows "All_loop h ch s p ob g acc = Inr (acc @ filter (matching_ptr h s p ob g) ch)"
  using assms
proof (induction ch arbitrary: acc)
  case Nil
  then show ?case by simp
next
  case (Cons a ch)
  from Cons.prems obtain quad where q: "deref h a = Inr quad" "quad_ok quad" by auto
  have rest: "\<forall>q\<in>set ch. \<exists>quad. deref h q = Inr quad \<and> quad_ok quad"
    using Cons.prems by simp
  show ?case using q by (simp add: skips_quad_ok matching_ptr_def Cons.IH[OF rest])
qed

lemma quads_ok_stored:
  assumes "quads_ok h d" "q |\<in>| quads d"
  shows "\<exists>quad. deref h q = Inr quad \<and> quad_ok quad"
proof -
  from assms have "case deref h q of Inl e \<Rightarrow> False | Inr quad \<Rightarrow> quad_ok quad"
    unfolding quads_ok_def by (rule fbspec)
  then show ?thesis by (cases "deref h q") simp_all
qed

lemma quads_ok_iter:
  "quads_ok h d \<Longrightarrow> IterQuads d ch \<Longrightarrow> \<forall>q\<in>set ch. \<exists>quad. deref h q = Inr quad \<and> quad_ok quad"
  using quads_ok_stored IterQuads_set by blast

lemma deref_not_Nil: "deref h q = Inr quad \<Longrightarrow> q \<noteq> Nil"
  by (auto simp: deref_def)

text \<open>
  C5 (as the code has it). In a dataset whose stored quads all have subject, predicate
  and object, let \<open>q\<close> be a stored pointer to \<open>quad\<close>. If the graph of \<open>quad\<close> is nil,
  \<open>One(quad.Subject, quad.Predicate, quad.Object, nil)\<close> returns a stored pointer to a quad
  equal to \<open>quad\<close>; with a graph term \<open>x\<close> in place of nil, \<open>One\<close> never returns \<open>q\<close>: it
  returns nil unless the dataset also stores the same triple in graph \<open>x\<close>, and then it
  returns a pointer to that quad. Whatever the pattern, \<open>One\<close> returns \<open>q\<close> only when the
  graph parameter equals the graph of \<open>quad\<close>, so a named-graph quad is never returned
  for a nil graph parameter. \<open>All\<close> returns, in channel order, exactly the stored
  pointers whose quads match under the same rule, nil acting as a wildcard for subject,
  predicate and object only.
\<close>

theorem One_All_graph_matching:
  assumes "IterQuads d ch" and "quads_ok h d" and "q |\<in>| quads d" and "deref h q = Inr quad"
  shows "(Graph quad = None \<longrightarrow>
            (\<exists>r. Dataset_One h ch (Subject quad) (Predicate quad) (Object quad) None = Inr r \<and>
                 r |\<in>| quads d \<and> deref h r = Inr quad)) \<and>
         (Graph quad = None \<longrightarrow>
            (\<exists>r. Dataset_One h ch (Subject quad) (Predicate quad) (Object quad) (Some x) = Inr r \<and>
                 r \<noteq> q \<and>
                 (if \<exists>q'. q' |\<in>| quads d \<and>
                       deref h q' = Inr (quad\<lparr>Graph := Some x\<rparr>)
                  then r |\<in>| quads d \<and> deref h r = Inr (quad\<lparr>Graph := Some x\<rparr>)
                  else r = Nil))) \<and>
         (Graph quad \<noteq> None \<longrightarrow> Dataset_One h ch s p ob g = Inr q \<longrightarrow> g = Graph quad) \<and>
         Dataset_All h ch s p ob g = Inr (filter (matching_ptr h s p ob g) ch)"
proof -
  note ok = quads_ok_iter[OF assms(2,1)]
  from quads_ok_stored[OF assms(2,3)] assms(4) have qok: "quad_ok quad" by simp
  have full: "pattern_matches quad' (Subject quad) (Predicate quad) (Object quad) g' =
      (quad' = quad\<lparr>Graph := g'\<rparr>)" for quad' g'
    using qok by (cases quad, cases quad') (auto simp: pattern_matches_def quad_ok_def)
  have a: "\<exists>r. Dataset_One h ch (Subject quad) (Predicate quad) (Object quad) None = Inr r \<and>
      r |\<in>| quads d \<and> deref h r = Inr quad" if g: "Graph quad = None"
  proof -
    from g have self: "quad\<lparr>Graph := None\<rparr> = quad" by simp
    have "matching_ptr h (Subject quad) (Predicate quad) (Object quad) None q"
      using assms(4) by (simp add: matching_ptr_def full self)
    moreover have "q \<in> set ch" using assms(1,3) by (simp add: IterQuads_set)
    ultimately obtain r where "Dataset_One h ch (Subject quad) (Predicate quad) (Object quad) None = Inr r"
      "r \<in> set ch" "matching_ptr h (Subject quad) (Predicate quad) (Object quad) None r"
      using One_char[OF ok, of "Subject quad" "Predicate quad" "Object quad" None] by blast
    moreover from this(3) have "deref h r = Inr quad"
      by (cases "deref h r") (simp_all add: matching_ptr_def full self)
    ultimately show ?thesis using assms(1) by (auto simp: IterQuads_set)
  qed
  have b: "\<exists>r. Dataset_One h ch (Subject quad) (Predicate quad) (Object quad) (Some x) = Inr r \<and>
      r \<noteq> q \<and>
      (if \<exists>q'. q' |\<in>| quads d \<and> deref h q' = Inr (quad\<lparr>Graph := Some x\<rparr>)
       then r |\<in>| quads d \<and> deref h r = Inr (quad\<lparr>Graph := Some x\<rparr>)
       else r = Nil)" if g: "Graph quad = None"
  proof -
    have m: "matching_ptr h (Subject quad) (Predicate quad) (Object quad) (Some x) r =
        (deref h r = Inr (quad\<lparr>Graph := Some x\<rparr>))" for r
      by (cases "deref h r") (simp_all add: matching_ptr_def full)
    from g have "quad \<noteq> quad\<lparr>Graph := Some x\<rparr>"
      by (cases quad) auto
    then have nq: "\<not> matching_ptr h (Subject quad) (Predicate quad) (Object quad) (Some x) q"
      using assms(4) by (simp add: m)
    from One_char[OF ok, of "Subject quad" "Predicate quad" "Object quad" "Some x"]
    obtain r where r: "Dataset_One h ch (Subject quad) (Predicate quad) (Object quad) (Some x) = Inr r"
      "(r = Nil \<and> (\<forall>q\<in>set ch. \<not> matching_ptr h (Subject quad) (Predicate quad) (Object quad) (Some x) q)) \<or>
       (r \<in> set ch \<and> matching_ptr h (Subject quad) (Predicate quad) (Object quad) (Some x) r)"
      by blast
    have "r \<noteq> q" using r(2) nq deref_not_Nil[OF assms(4)] by auto
    moreover have "if \<exists>q'. q' |\<in>| quads d \<and> deref h q' = Inr (quad\<lparr>Graph := Some x\<rparr>)
       then r |\<in>| quads d \<and> deref h r = Inr (quad\<lparr>Graph := Some x\<rparr>)
       else r = Nil"
      using r(2) IterQuads_set[OF assms(1)] unfolding m by (auto simp: deref_def)
    ultimately show ?thesis using r(1) by blast
  qed
  have c: "g = Graph quad" if "Dataset_One h ch s p ob g = Inr q"
  proof -
    from One_char[OF ok, of s p ob g] that deref_not_Nil[OF assms(4)]
    have "matching_ptr h s p ob g q" by auto
    then show ?thesis using assms(4) by (simp add: matching_ptr_def pattern_matches_def)
  qed
  have e: "Dataset_All h ch s p ob g = Inr (filter (matching_ptr h s p ob g) ch)"
    unfolding Dataset_All_def by (simp add: All_loop_char[OF ok])
  from a b c e show ?thesis by blast
qed

lemma both_graphs_eq:
  "both_graphs = ([quad_abc, quad_abcg],
     \<lparr>quads = {|Ptr 1, Ptr 0|}, uri = testDatasetUri, self_term = Resource testDatasetUri\<rparr>)"
  by (simp add: both_graphs_def first_abc_eq AddQuad_def NewQuad_def quad_abcg_def)

lemmas example_terms = term_a_def term_b_def term_c_def term_g_def quad_abc_def quad_abcg_def

lemmas query_defs = deref_def skips_def term_differs_def graph_differs_def

text \<open>
  C5 as stated fails: with the triple \<open>a b c\<close> stored in the default graph and in graph
  \<open>g\<close>, \<open>One(a, b, c, g)\<close> built from the default-graph quad returns the named-graph quad,
  not the no-match result, in either iteration order.
\<close>

theorem One_named_graph_counterexample:
  "IterQuads (snd both_graphs) [Ptr 0, Ptr 1] \<and>
   IterQuads (snd both_graphs) [Ptr 1, Ptr 0] \<and>
   deref (fst both_graphs) (Ptr 0) = Inr quad_abc \<and> Graph quad_abc = None \<and>
   Dataset_One (fst both_graphs) [Ptr 0, Ptr 1]
     (Subject quad_abc) (Predicate quad_abc) (Object quad_abc) term_g = Inr (Ptr 1) \<and>
   Dataset_One (fst both_graphs) [Ptr 1, Ptr 0]
     (Subject quad_abc) (Predicate quad_abc) (Object quad_abc) term_g = Inr (Ptr 1)"
  by (simp add: both_graphs_eq IterQuads_def query_defs example_terms finsert_commute)

text \<open>
  C5, the theorem at the two quads of that dataset.
\<close>

theorem One_All_graph_matching_witness:
  "IterQuads (snd both_graphs) [Ptr 0, Ptr 1] \<and> quads_ok (fst both_graphs) (snd both_graphs) \<and>
   Ptr 0 |\<in>| quads (snd both_graphs) \<and> deref (fst both_graphs) (Ptr 0) = Inr quad_abc \<and>
   Graph quad_abc = None \<and>
   Dataset_One (fst both_graphs) [Ptr 0, Ptr 1] term_a term_b term_c None = Inr (Ptr 0) \<and>
   Dataset_One (fst both_graphs) [Ptr 0, Ptr 1] term_a term_b term_c term_g = Inr (Ptr 1) \<and>
   Ptr 1 |\<in>| quads (snd both_graphs) \<and> deref (fst both_graphs) (Ptr 1) = Inr quad_abcg \<and>
   Graph quad_abcg \<noteq> None \<and>
   Dataset_One (fst both_graphs) [Ptr 0, Ptr 1] term_a None None term_g = Inr (Ptr 1) \<and>
   Dataset_One (fst both_graphs) [Ptr 0, Ptr 1] term_a None None None = Inr (Ptr 0) \<and>
   Dataset_All (fst both_graphs) [Ptr 0, Ptr 1] term_a None None None = Inr [Ptr 0] \<and>
   Dataset_All (fst both_graphs) [Ptr 0, Ptr 1] term_a None None term_g = Inr [Ptr 1]"
proof -
  have it: "IterQuads (snd both_graphs) [Ptr 0, Ptr 1]"
    by (simp add: both_graphs_eq IterQuads_def finsert_commute)
  have ok: "quads_ok (fst both_graphs) (snd both_graphs)"
    by (simp add: both_graphs_eq quads_ok_def quad_ok_def deref_def example_terms)
  have s0: "Ptr 0 |\<in>| quads (snd both_graphs)" and s1: "Ptr 1 |\<in>| quads (snd both_graphs)"
    by (simp_all add: both_graphs_eq)
  have d0: "deref (fst both_graphs) (Ptr 0) = Inr quad_abc"
    and d1: "deref (fst both_graphs) (Ptr 1) = Inr quad_abcg"
    by (simp_all add: both_graphs_eq deref_def)
  note default = One_All_graph_matching[OF it ok s0 d0, of "Resource ''g''" term_a None None None]
  note named = One_All_graph_matching[OF it ok s1 d1, of "Resource ''g''" term_a None None term_g]
  have m: "filter (matching_ptr (fst both_graphs) term_a None None None) [Ptr 0, Ptr 1] = [Ptr 0]"
     "filter (matching_ptr (fst both_graphs) term_a None None term_g) [Ptr 0, Ptr 1] = [Ptr 1]"
    by (simp_all add: both_graphs_eq matching_ptr_def pattern_matches_def deref_def example_terms)
  have one: "Dataset_One (fst both_graphs) [Ptr 0, Ptr 1] term_a term_b term_c None = Inr (Ptr 0)"
     "Dataset_One (fst both_graphs) [Ptr 0, Ptr 1] term_a term_b term_c term_g = Inr (Ptr 1)"
     "Dataset_One (fst both_graphs) [Ptr 0, Ptr 1] term_a None None term_g = Inr (Ptr 1)"
     "Dataset_One (fst both_graphs) [Ptr 0, Ptr 1] term_a None None None = Inr (Ptr 0)"
    by (simp_all add: both_graphs_eq query_defs example_terms)
  have g: "Graph quad_abc = None" "Graph quad_abcg \<noteq> None"
    by (simp_all add: example_terms)
  from default named show ?thesis
    unfolding m using it ok s0 s1 d0 d1 one g by simp
qed

section \<open>Flat serialization: the text written\<close>

lemma Quad_String_flat:
  assumes "deref h q = Inr quad" "quad_ok quad"
  shows "Quad_String quad @ [CHR 0x0A] = flat_line_of h q"
  using assms
  by (cases "Graph quad")
    (auto simp: quad_ok_def Quad_String_def nil_or_String_def flat_line_of_def flat_line_def)

lemma String_loop_char:
  assumes "\<forall>q\<in>set ch. \<exists>quad. deref h q = Inr quad \<and> quad_ok quad"
  shows "String_loop h ch w = Inr (w @ concat (map (flat_line_of h) ch))"
  using assms
proof (induction ch arbitrary: w)
  case Nil
  then show ?case by simp
next
  case (Cons a ch)
  from Cons.prems obtain quad where q: "deref h a = Inr quad" "quad_ok quad" by auto
  have rest: "\<forall>q\<in>set ch. \<exists>quad. deref h q = Inr quad \<and> quad_ok quad"
    using Cons.prems by simp
  have "String_loop h (a # ch) w = String_loop h ch (w @ flat_line_of h a)"
    using q(1) Quad_String_flat[OF q] by simp
  then show ?case by (simp add: Cons.IH[OF rest])
qed

text \<open>
  C8. In a dataset whose stored quads all have subject, predicate and object, the flat
  serialization (\<open>serializeNQuads\<close>, and \<open>Dataset.String\<close>) writes, for every quad in
  channel order, the canonical encodings of subject, predicate and object joined by
  single spaces, then the graph term only when it is present, then \<open> .\<close> and a newline.
  The quad \<open>(<a>, <b>, <c>, <g>)\<close> gives exactly the line \<open><a> <b> <c> <g> .\<close> followed by
  a newline.
\<close>

theorem flat_serialization:
  assumes "IterQuads d ch" and "quads_ok h d"
  shows "serializeNQuads h ch w = Inr (w @ concat (map (flat_line_of h) ch), None) \<and>
         Dataset_String h ch = Inr (concat (map (flat_line_of h) ch)) \<and>
         Quad_String quad_abcg = ''<a> <b> <c> <g> .'' \<and>
         flat_line (Resource ''a'') (Resource ''b'') (Resource ''c'') (Some (Resource ''g'')) =
           ''<a> <b> <c> <g> .'' @ [CHR 0x0A]"
proof -
  note ok = quads_ok_iter[OF assms(2,1)]
  have "Quad_String quad_abcg = ''<a> <b> <c> <g> .''"
    by (simp add: Quad_String_def nil_or_String_def example_terms)
  moreover have "flat_line (Resource ''a'') (Resource ''b'') (Resource ''c'')
      (Some (Resource ''g'')) = ''<a> <b> <c> <g> .'' @ [CHR 0x0A]"
    by (simp add: flat_line_def)
  ultimately show ?thesis
    by (simp add: serializeNQuads_def Dataset_String_def String_loop_char[OF ok])
qed

text \<open>
  C8, the theorem at the dataset of the repository's test: one quad
  \<open>(<a>, <b>, <c>, <g>)\<close>.
\<close>

theorem flat_serialization_witness:
  "IterQuads holds_q [Ptr 0] \<and> quads_ok (fst built_q) holds_q \<and>
   serializeNQuads (fst built_q) [Ptr 0] [] = Inr (''<a> <b> <c> <g> .'' @ [CHR 0x0A], None) \<and>
   Dataset_String (fst built_q) [Ptr 0] = Inr (''<a> <b> <c> <g> .'' @ [CHR 0x0A])"
proof -
  have it: "IterQuads holds_q [Ptr 0]"
    by (simp add: holds_q_def built_q_eq IterQuads_def Add_def NewDataset_def)
  have ok: "quads_ok (fst built_q) holds_q"
    by (simp add: holds_q_def built_q_eq quads_ok_def quad_ok_def deref_def Add_def
        NewDataset_def example_terms)
  have l: "flat_line_of (fst built_q) (Ptr 0) = ''<a> <b> <c> <g> .'' @ [CHR 0x0A]"
    by (simp add: built_q_eq flat_line_of_def flat_line_def deref_def example_terms)
  from flat_serialization[OF it ok, of "[]"] it ok show ?thesis
    by (simp add: l)
qed

section \<open>TriG serialization: buckets and blocks\<close>

lemma bucket_of_append:
  "bucket_of (bucket_append m k q) k' = (if k' = k then bucket_of m k @ [q] else bucket_of m k')"
  by (induction m k q rule: bucket_append.induct) (auto simp: bucket_of_def)

lemma keys_bucket_append: "fst ` set (bucket_append m k q) = insert k (fst ` set m)"
  by (induction m k q rule: bucket_append.induct) auto

lemma graph_key_Some:
  "deref h q = Inr quad \<Longrightarrow> Graph quad = Some g \<Longrightarrow> graph_key h q = Some (Term_String g)"
  by (simp add: graph_key_def)

lemma graph_key_None:
  "deref h q = Inr quad \<Longrightarrow> Graph quad = None \<Longrightarrow> graph_key h q = None"
  by (simp add: graph_key_def)

lemma set_graph_keys: "set (graph_keys h ch) = {k. \<exists>q\<in>set ch. graph_key h q = Some k}"
  by (auto simp: graph_keys_def split: option.splits)

lemma group_loop_char:
  assumes "\<forall>q\<in>set ch. \<exists>quad. deref h q = Inr quad"
  shows "\<exists>m'. group_loop h ch m dq = Inr (m', dq @ default_bucket h ch) \<and>
           (\<forall>k. bucket_of m' k = bucket_of m k @ named_bucket h ch k) \<and>
           set (map fst m') = set (map fst m) \<union> set (graph_keys h ch)"
  using assms
proof (induction ch arbitrary: m dq)
  case Nil
  then show ?case by (simp add: default_bucket_def named_bucket_def graph_keys_def)
next
  case (Cons a ch)
  from Cons.prems obtain quad where q: "deref h a = Inr quad" by auto
  have rest: "\<forall>q\<in>set ch. \<exists>quad. deref h q = Inr quad"
    using Cons.prems by simp
  show ?case
  proof (cases "Graph quad")
    case None
    note k = graph_key_None[OF q None]
    have step: "group_loop h (a # ch) m dq = group_loop h ch m (dq @ [a])"
      using q None by simp
    have d: "default_bucket h (a # ch) = a # default_bucket h ch"
      and n: "\<And>k. named_bucket h (a # ch) k = named_bucket h ch k"
      and g: "set (graph_keys h (a # ch)) = set (graph_keys h ch)"
      using k by (auto simp: default_bucket_def named_bucket_def set_graph_keys)
    from Cons.IH[OF rest, of m "dq @ [a]"] show ?thesis
      unfolding step d n g by simp
  next
    case (Some g)
    note k = graph_key_Some[OF q Some]
    have step: "group_loop h (a # ch) m dq =
        group_loop h ch (bucket_append m (Term_String g) a) dq"
      using q Some by simp
    have d: "default_bucket h (a # ch) = default_bucket h ch"
      and n: "\<And>k. named_bucket h (a # ch) k =
          (if k = Term_String g then a # named_bucket h ch k else named_bucket h ch k)"
      and gk: "set (graph_keys h (a # ch)) = insert (Term_String g) (set (graph_keys h ch))"
      using k by (auto simp: default_bucket_def named_bucket_def set_graph_keys)
    from Cons.IH[OF rest, of "bucket_append m (Term_String g) a" dq] show ?thesis
      unfolding step d n gk by (auto simp: bucket_of_append keys_bucket_append)
  qed
qed

lemma triple_line_spo:
  assumes "deref h q = Inr quad" "quad_ok quad"
  shows "triple_line quad = spo_line_of h q"
  using assms
  by (auto simp: quad_ok_def triple_line_def encodeTerm_def spo_line_of_def spo_line_def)

lemma triple_lines_char:
  assumes "\<forall>q\<in>set qs. \<exists>quad. deref h q = Inr quad \<and> quad_ok quad"
  shows "triple_lines h qs w = Inr (w @ lines_of h qs)"
  using assms
proof (induction qs arbitrary: w)
  case Nil
  then show ?case by (simp add: lines_of_def)
next
  case (Cons a qs)
  from Cons.prems obtain quad where q: "deref h a = Inr quad" "quad_ok quad" by auto
  have rest: "\<forall>q\<in>set qs. \<exists>quad. deref h q = Inr quad \<and> quad_ok quad"
    using Cons.prems by simp
  have "lines_of h (a # qs) = triple_line quad @ lines_of h qs"
    using triple_line_spo[OF q] by (simp add: lines_of_def)
  then show ?case using q(1) by (simp add: Cons.IH[OF rest])
qed

lemma named_loop_char:
  assumes "\<forall>k. \<forall>q\<in>set (bucket_of m k). \<exists>quad. deref h q = Inr quad \<and> quad_ok quad"
  shows "named_loop h m ks w = Inr (w @ concat (map (block_of h m) ks))"
proof (induction ks arbitrary: w)
  case Nil
  then show ?case by simp
next
  case (Cons k ks)
  have "\<forall>q\<in>set (bucket_of m k). \<exists>quad. deref h q = Inr quad \<and> quad_ok quad"
    using assms by blast
  from triple_lines_char[OF this]
  show ?case by (simp add: Cons.IH block_of_def)
qed

lemma sum_list_no_key:
  fixes f :: "string \<Rightarrow> quad_ptr multiset"
  shows "k0 \<notin> set ks \<Longrightarrow>
    sum_list (map (\<lambda>k. if k = k0 then f k + {#q#} else f k) ks) = sum_list (map f ks)"
  by (induction ks) auto

lemma sum_list_one_key:
  fixes f :: "string \<Rightarrow> quad_ptr multiset"
  assumes "distinct ks" "k0 \<in> set ks"
  shows "sum_list (map (\<lambda>k. if k = k0 then f k + {#q#} else f k) ks) = sum_list (map f ks) + {#q#}"
  using assms
proof (induction ks)
  case Nil
  then show ?case by simp
next
  case (Cons k ks)
  show ?case
  proof (cases "k = k0")
    case True
    with Cons.prems have "k0 \<notin> set ks" by simp
    from sum_list_no_key[OF this, of f q] True show ?thesis by simp
  next
    case False
    with Cons.prems have "distinct ks" "k0 \<in> set ks" by auto
    from Cons.IH[OF this] False show ?thesis by simp
  qed
qed

lemma buckets_partition:
  assumes "distinct ks" "set (graph_keys h ch) \<subseteq> set ks"
  shows "mset ch = mset (default_bucket h ch) + sum_list (map (\<lambda>k. mset (named_bucket h ch k)) ks)"
  using assms(2)
proof (induction ch)
  case Nil
  have "sum_list (map (\<lambda>k. {#}) ks) = ({#} :: quad_ptr multiset)"
    by (induction ks) simp_all
  then show ?case by (simp add: default_bucket_def named_bucket_def)
next
  case (Cons a ch)
  have sub: "set (graph_keys h ch) \<subseteq> set ks"
    using Cons.prems by (auto simp: set_graph_keys)
  note IH = Cons.IH[OF sub]
  show ?case
  proof (cases "graph_key h a")
    case None
    then have "default_bucket h (a # ch) = a # default_bucket h ch"
      "\<And>k. named_bucket h (a # ch) k = named_bucket h ch k"
      by (simp_all add: default_bucket_def named_bucket_def)
    then show ?thesis using IH by simp
  next
    case (Some k0)
    then have k0: "k0 \<in> set ks" using Cons.prems by (auto simp: set_graph_keys)
    have d: "default_bucket h (a # ch) = default_bucket h ch"
      and n: "\<And>k. mset (named_bucket h (a # ch) k) =
         (if k = k0 then mset (named_bucket h ch k) + {#a#} else mset (named_bucket h ch k))"
      using Some by (auto simp: default_bucket_def named_bucket_def)
    show ?thesis
      unfolding d n sum_list_one_key[OF assms(1) k0] using IH by simp
  qed
qed

text \<open>
  C9. For a dataset whose stored quads all have subject, predicate and object, and for
  whatever order \<open>ks\<close> the range loop visits the keys in, \<open>serializeTrig\<close> appends to
  the writer the default block followed by one block per key of \<open>ks\<close>, where \<open>ks\<close> lists
  each canonical graph text of the dataset once. The default block is \<open>{\<close>, the triple
  lines of the quads without graph, \<open>}\<close>, and is empty when there is no such quad; the
  block of key \<open>k\<close> is an empty line, \<open>k {\<close>, the triple lines of the quads whose graph
  text is \<open>k\<close>, \<open>}\<close>. The triple line of a quad is two spaces, the canonical encodings
  of its subject, predicate and object separated by single spaces, \<open> .\<close> and a newline
  (\<open>spo_line\<close>), and the lines of a bucket are in channel order. The buckets partition the channel: every stored quad is in
  exactly one of them, no named bucket is empty, and the default block is empty exactly
  when the default bucket is.
\<close>

theorem serializeTrig_buckets:
  assumes "IterQuads d ch" and "quads_ok h d" and "\<forall>m. range_keys m (order m)"
  shows "\<exists>ks. distinct ks \<and> set ks = set (graph_keys h ch) \<and>
           serializeTrig h ch order w =
             Inr (w @ default_block h ch @ concat (map (named_block h ch) ks), None) \<and>
           mset ch = mset (default_bucket h ch) +
             sum_list (map (\<lambda>k. mset (named_bucket h ch k)) ks) \<and>
           (\<forall>k\<in>set ks. named_bucket h ch k \<noteq> []) \<and>
           (default_block h ch = []) = (default_bucket h ch = [])"
proof -
  note okq = quads_ok_iter[OF assms(2,1)]
  then have ok: "\<forall>q\<in>set ch. \<exists>quad. deref h q = Inr quad" by blast
  from group_loop_char[OF ok, of "[]" "[]"] obtain m' where
    g: "group_loop h ch [] [] = Inr (m', default_bucket h ch)"
    and b: "\<And>k. bucket_of m' k = named_bucket h ch k"
    and keys: "set (map fst m') = set (graph_keys h ch)"
    by (auto simp: bucket_of_def)
  define ks where "ks = order m'"
  from assms(3) have "range_keys m' ks" unfolding ks_def by blast
  then have dist: "distinct ks" and sk: "set ks = set (graph_keys h ch)"
    using keys by (simp_all add: range_keys_def)
  have okd: "\<forall>q\<in>set (default_bucket h ch). \<exists>quad. deref h q = Inr quad \<and> quad_ok quad"
    using okq by (simp add: default_bucket_def)
  have okn: "\<forall>k. \<forall>q\<in>set (bucket_of m' k). \<exists>quad. deref h q = Inr quad \<and> quad_ok quad"
    using okq by (simp add: b named_bucket_def)
  have blocks: "map (block_of h m') ks = map (named_block h ch) ks"
    by (simp add: block_of_def named_block_def b)
  have first: "(if length (default_bucket h ch) > 0
                 then (case triple_lines h (default_bucket h ch) (w @ ''{'' @ [CHR 0x0A]) of
                         Inl e \<Rightarrow> Inl e
                       | Inr w' \<Rightarrow> Inr (w' @ ''}'' @ [CHR 0x0A]))
                 else Inr w) = Inr (w @ default_block h ch)"
    by (simp add: triple_lines_char[OF okd] default_block_def)
  have out: "serializeTrig h ch order w =
      Inr (w @ default_block h ch @ concat (map (named_block h ch) ks), None)"
    unfolding serializeTrig_def g
    by (simp only: first named_loop_char[OF okn] blocks ks_def[symmetric] sum.case prod.case
        append_assoc)
  have part: "mset ch = mset (default_bucket h ch) +
      sum_list (map (\<lambda>k. mset (named_bucket h ch k)) ks)"
    using dist sk by (intro buckets_partition) simp_all
  have ne: "\<forall>k\<in>set ks. named_bucket h ch k \<noteq> []"
    unfolding sk set_graph_keys by (auto simp: named_bucket_def filter_empty_conv)
  have "(default_block h ch = []) = (default_bucket h ch = [])"
    by (simp add: default_block_def)
  with dist sk out part ne show ?thesis by blast
qed

lemma distinct_single:
  assumes "distinct ks" "set ks = {x}"
  shows "ks = [x]"
proof -
  from assms have "length ks = 1" using distinct_card[of ks] by simp
  then obtain y where "ks = [y]" by (cases ks) auto
  with assms(2) show ?thesis by simp
qed

lemma two_graphs_eq:
  "two_graphs = ([quad_abc, quad_abgg],
     \<lparr>quads = {|Ptr 1, Ptr 0|}, uri = testDatasetUri, self_term = Resource testDatasetUri\<rparr>)"
  by (simp add: two_graphs_def first_abc_eq AddQuad_def NewQuad_def quad_abgg_def)

lemma three_quads_eq:
  "three_quads = ([quad_abc, quad_abgg, quad_abcg],
     \<lparr>quads = {|Ptr 2, Ptr 1, Ptr 0|}, uri = testDatasetUri,
        self_term = Resource testDatasetUri\<rparr>)"
  by (simp add: three_quads_def two_graphs_eq AddQuad_def NewQuad_def quad_abcg_def
      numeral_2_eq_2)

lemma three_quads_keys:
  "graph_key (fst three_quads) (Ptr 0) = None"
  "graph_key (fst three_quads) (Ptr 1) = Some ''<g>''"
  "graph_key (fst three_quads) (Ptr 2) = Some ''<g>''"
  by (simp_all add: three_quads_eq graph_key_def deref_def example_terms quad_abgg_def)

lemma three_quads_lines:
  "spo_line_of (fst three_quads) (Ptr 0) = ''  <a> <b> <c> .'' @ [CHR 0x0A]"
  "spo_line_of (fst three_quads) (Ptr 1) = ''  <a> <b> <g> .'' @ [CHR 0x0A]"
  "spo_line_of (fst three_quads) (Ptr 2) = ''  <a> <b> <c> .'' @ [CHR 0x0A]"
  by (simp_all add: three_quads_eq spo_line_of_def spo_line_def deref_def example_terms
      quad_abgg_def)

text \<open>
  C9, the theorem at the dataset with \<open>a b c\<close> in the default graph and \<open>a b g\<close> and
  \<open>a b c\<close> in graph \<open>g\<close>, the channel delivering the last quad first: each line is the
  line of its quad, and a bucket keeps the order of the channel.
\<close>

theorem serializeTrig_buckets_witness:
  "IterQuads (snd three_quads) three_chan \<and> quads_ok (fst three_quads) (snd three_quads) \<and>
   (\<forall>m. range_keys m (first_seen m)) \<and>
   graph_keys (fst three_quads) three_chan = [''<g>''] \<and>
   default_bucket (fst three_quads) three_chan = [Ptr 0] \<and>
   named_bucket (fst three_quads) three_chan ''<g>'' = [Ptr 2, Ptr 1] \<and>
   serializeTrig (fst three_quads) three_chan first_seen [] =
     Inr (''{'' @ [CHR 0x0A] @ ''  <a> <b> <c> .'' @ [CHR 0x0A] @ ''}'' @ [CHR 0x0A] @
          [CHR 0x0A] @ ''<g> {'' @ [CHR 0x0A] @ ''  <a> <b> <c> .'' @ [CHR 0x0A] @
          ''  <a> <b> <g> .'' @ [CHR 0x0A] @ ''}'' @ [CHR 0x0A], None)"
proof -
  have it: "IterQuads (snd three_quads) three_chan"
    by (auto simp: three_quads_eq three_chan_def IterQuads_def)
  have ok: "quads_ok (fst three_quads) (snd three_quads)"
    by (simp add: three_quads_eq quads_ok_def quad_ok_def deref_def example_terms quad_abgg_def)
  have rk: "\<forall>m. range_keys m (first_seen m)"
    by (simp add: range_keys_def first_seen_def)
  have k: "graph_keys (fst three_quads) three_chan = [''<g>'']"
    unfolding graph_keys_def three_chan_def list.map three_quads_keys by simp
  have db: "default_bucket (fst three_quads) three_chan = [Ptr 0]"
    and nb: "named_bucket (fst three_quads) three_chan ''<g>'' = [Ptr 2, Ptr 1]"
    unfolding default_bucket_def named_bucket_def three_chan_def filter.simps three_quads_keys
    by simp_all
  have out: "default_block (fst three_quads) three_chan =
      ''{'' @ [CHR 0x0A] @ ''  <a> <b> <c> .'' @ [CHR 0x0A] @ ''}'' @ [CHR 0x0A]"
    "named_block (fst three_quads) three_chan ''<g>'' =
      [CHR 0x0A] @ ''<g> {'' @ [CHR 0x0A] @ ''  <a> <b> <c> .'' @ [CHR 0x0A] @
      ''  <a> <b> <g> .'' @ [CHR 0x0A] @ ''}'' @ [CHR 0x0A]"
    unfolding default_block_def named_block_def db nb lines_of_def list.map three_quads_lines
    by simp_all
  from serializeTrig_buckets[OF it ok rk, of "[]"] obtain ks where
    ks: "distinct ks" "set ks = set (graph_keys (fst three_quads) three_chan)"
    and ser: "serializeTrig (fst three_quads) three_chan first_seen [] =
      Inr ([] @ default_block (fst three_quads) three_chan @
           concat (map (named_block (fst three_quads) three_chan) ks), None)"
    by blast
  from ks have "ks = [''<g>'']"
    unfolding k by (intro distinct_single) simp_all
  then have one: "concat (map (named_block (fst three_quads) three_chan) ks) =
      named_block (fst three_quads) three_chan ''<g>''"
    by simp
  from ser have "serializeTrig (fst three_quads) three_chan first_seen [] =
     Inr (''{'' @ [CHR 0x0A] @ ''  <a> <b> <c> .'' @ [CHR 0x0A] @ ''}'' @ [CHR 0x0A] @
          [CHR 0x0A] @ ''<g> {'' @ [CHR 0x0A] @ ''  <a> <b> <c> .'' @ [CHR 0x0A] @
          ''  <a> <b> <g> .'' @ [CHR 0x0A] @ ''}'' @ [CHR 0x0A], None)"
    unfolding one out by simp
  with it ok rk k db nb show ?thesis by blast
qed

section \<open>Parsing: what the loops add\<close>

lemma AddTriple_AddQuad: "AddTriple h d s p ob = AddQuad h d s p ob None"
  by (simp add: AddTriple_def AddQuad_def)

lemma AddTriple_loop_AddQuad_loop: "AddTriple_loop h d ts = AddQuad_loop h d ts None"
  by (induction h d ts rule: AddTriple_loop.induct)
    (auto simp: AddTriple_AddQuad split: prod.splits)

lemma fresh_ptrs_Suc:
  "finsert (Ptr (length h)) (fresh_ptrs (h @ [x]) n) = fresh_ptrs h (Suc n)"
proof -
  have "[length h ..< length h + Suc n] = length h # [Suc (length h) ..< Suc (length h) + n]"
    by (simp add: upt_conv_Cons)
  then show ?thesis by (simp add: fresh_ptrs_def)
qed

lemma AddQuad_loop_char:
  "AddQuad_loop h d ts g =
     (h @ map (mk_quad g) ts, d\<lparr>quads := quads d |\<union>| fresh_ptrs h (length ts)\<rparr>)"
proof (induction h d ts g rule: AddQuad_loop.induct)
  case (1 h d g)
  then show ?case by (simp add: fresh_ptrs_def)
next
  case (2 h d s p ob ts g)
  have a: "AddQuad h d s p ob g =
      (h @ [mk_quad g (s, p, ob)], d\<lparr>quads := finsert (Ptr (length h)) (quads d)\<rparr>)"
    by (simp add: AddQuad_def NewQuad_def mk_quad_def)
  have "fresh_ptrs h (Suc (length ts)) =
      finsert (Ptr (length h)) (fresh_ptrs (h @ [mk_quad g (s, p, ob)]) (length ts))"
    by (rule fresh_ptrs_Suc[symmetric])
  then have "finsert (Ptr (length h)) (quads d) |\<union>| fresh_ptrs (h @ [mk_quad g (s, p, ob)]) (length ts) =
      quads d |\<union>| fresh_ptrs h (Suc (length ts))"
    by auto
  then show ?case using "2.IH"[OF a[symmetric]] by (simp add: a)
qed

lemma fresh_ptrs_iff: "q |\<in>| fresh_ptrs h n \<longleftrightarrow> (\<exists>i. q = Ptr i \<and> length h \<le> i \<and> i < length h + n)"
  by (auto simp: fresh_ptrs_def fset_of_list_elem)

lemma fresh_ptrs_disjoint: "store_ok h d \<Longrightarrow> q |\<in>| fresh_ptrs h n \<Longrightarrow> q |\<notin>| quads d"
proof
  assume ok: "store_ok h d" and f: "q |\<in>| fresh_ptrs h n" and s: "q |\<in>| quads d"
  from ok s have "ptr_ok h q" unfolding store_ok_def by (rule fbspec)
  with f show False by (auto simp: fresh_ptrs_iff ptr_ok_def)
qed

lemma fcard_fresh_ptrs: "fcard (fresh_ptrs h n) = n"
proof -
  have "inj_on Ptr (set [length h ..< length h + n])" by (simp add: inj_on_def)
  then have "card (Ptr ` set [length h ..< length h + n]) = n"
    by (simp add: card_image)
  then show ?thesis by (simp add: fresh_ptrs_def fcard.rep_eq fset_of_list.rep_eq)
qed

lemma deref_fresh:
  assumes "length h \<le> i" "i < length h + length ts"
  shows "deref (h @ map (mk_quad g) ts) (Ptr i) = Inr (mk_quad g (ts ! (i - length h)))"
  using assms by (simp add: deref_def nth_append)








section \<open>Parsing and serializing by format\<close>

lemma registry_trig: "registry mimeParser ''application/trig'' = ''trig''"
  by (simp add: registry_def mimeParser_def)

lemma registry_jsonld: "registry mimeParser ''application/ld+json'' = ''jsonld''"
  by (simp add: registry_def mimeParser_def)

lemma Parse_trig: "Parse c h d reader ''application/trig'' = parseTrig (turtle_Parse c) h d reader"
  by (simp add: Parse_def registry_trig)

lemma Parse_jsonld:
  "Parse c h d reader ''application/ld+json'' =
     (case ReadJSON c reader of
        Inl err \<Rightarrow> (h, d, Some err)
      | Inr jsonData \<Rightarrow>
          (case ToRDF c jsonData \<lparr>Base = [], ProduceGeneralizedRdf = False\<rparr> of
             Inl err \<Rightarrow> (h, d, Some err)
           | Inr ts \<Rightarrow>
               (h @ map (mk_quad None) ts,
                d\<lparr>quads := quads d |\<union>| fresh_ptrs h (length ts)\<rparr>, None)))"
  by (simp add: Parse_def registry_jsonld AddTriple_loop_AddQuad_loop AddQuad_loop_char
      split: sum.splits)

text \<open>
  C10. \<open>Parse\<close> with format \<open>application/trig\<close> returns a nil error for every input and
  every collaborator, and a statement group the Turtle parser rejects leaves heap and
  dataset as they were: nothing about it is recorded or returned.
\<close>

theorem Parse_trig_never_fails:
  "(\<exists>h' d'. Parse c h d reader ''application/trig'' = (h', d', None)) \<and>
   (turtle_Parse c (uri d) (Join ls [CHR 0x0A]) = Inl e \<longrightarrow>
      processTripleLines (turtle_Parse c) h d ls g = (h, d))"
  by (simp add: Parse_trig parseTrig_def processTripleLines_def split: prod.splits)


text \<open>
  C7. When \<open>Parse\<close> with format \<open>application/ld+json\<close> returns nil, the JSON-LD
  processor has read the text and has converted it with an empty base IRI and
  generalized RDF disabled; \<open>Len\<close> has grown by the number of triples, every quad the
  call added has a nil graph and carries one of the triples, and every triple is
  carried by an added quad.
\<close>

theorem Parse_jsonld_default_graph:
  assumes "store_ok h d"
    and "Parse c h d reader ''application/ld+json'' = (h', d', None)"
  shows "\<exists>jsonData ts.
           ReadJSON c reader = Inr jsonData \<and>
           ToRDF c jsonData \<lparr>Base = [], ProduceGeneralizedRdf = False\<rparr> = Inr ts \<and>
           Len d' = Len d + length ts \<and>
           (\<forall>q. q |\<in>| quads d' |-| quads d \<longrightarrow>
              (\<exists>quad. deref h' q = Inr quad \<and> Graph quad = None \<and>
                 (Subject quad, Predicate quad, Object quad) \<in> set ts)) \<and>
           (\<forall>t\<in>set ts. \<exists>q. q |\<in>| quads d' |-| quads d \<and> deref h' q = Inr (mk_quad None t))"
proof -
  from assms(2) obtain jsonData ts where
    j: "ReadJSON c reader = Inr jsonData"
    and t: "ToRDF c jsonData \<lparr>Base = [], ProduceGeneralizedRdf = False\<rparr> = Inr ts"
    and h': "h' = h @ map (mk_quad None) ts"
    and d': "quads d' = quads d |\<union>| fresh_ptrs h (length ts)"
    by (auto simp: Parse_jsonld split: sum.splits)
  have new: "quads d' |-| quads d = fresh_ptrs h (length ts)"
    using fresh_ptrs_disjoint[OF assms(1)] unfolding d' by auto
  have len: "Len d' = Len d + length ts"
  proof -
    have "quads d |\<inter>| fresh_ptrs h (length ts) = {||}"
      using fresh_ptrs_disjoint[OF assms(1)] by auto
    then have "fcard (quads d |\<union>| fresh_ptrs h (length ts)) =
        fcard (quads d) + fcard (fresh_ptrs h (length ts))"
      by (rule fcard_funion_disjoint)
    then show ?thesis by (simp add: Len_def d' fcard_fresh_ptrs)
  qed
  have a: "\<exists>quad. deref h' q = Inr quad \<and> Graph quad = None \<and>
      (Subject quad, Predicate quad, Object quad) \<in> set ts" if "q |\<in>| quads d' |-| quads d" for q
  proof -
    from that obtain i where i: "q = Ptr i" "length h \<le> i" "i < length h + length ts"
      unfolding new fresh_ptrs_iff by blast
    then have "deref h' q = Inr (mk_quad None (ts ! (i - length h)))"
      unfolding h' by (simp add: deref_fresh)
    moreover have "ts ! (i - length h) \<in> set ts" using i by simp
    ultimately show ?thesis by (simp add: mk_quad_def)
  qed
  have b: "\<exists>q. q |\<in>| quads d' |-| quads d \<and> deref h' q = Inr (mk_quad None t)" if "t \<in> set ts" for t
  proof -
    from that obtain i where i: "i < length ts" "ts ! i = t" by (auto simp: in_set_conv_nth)
    have "Ptr (length h + i) |\<in>| quads d' |-| quads d"
      unfolding new using i(1) by (simp add: fresh_ptrs_iff)
    moreover have "deref h' (Ptr (length h + i)) = Inr (mk_quad None t)"
      unfolding h' using deref_fresh[of h "length h + i" ts None] i by simp
    ultimately show ?thesis by blast
  qed
  from j t len a b show ?thesis by blast
qed

text \<open>
  C4 (as the code has it). For a format identifier that is not a key of the parser
  registry, \<open>Parse\<close> returns the error \<open>guess is not supported by the parser\<close> and leaves
  heap and dataset as they were. For one that is not a key of the serializer registry,
  \<open>Serialize\<close> is \<open>serializeNQuads\<close>: it writes the flat text and returns a nil error.
\<close>

theorem unregistered_format:
  assumes "IterQuads d ch" and "quads_ok h d"
  shows "(map_of mimeParser mime = None \<longrightarrow>
            Parse c h d reader mime = (h, d, Some (Error ''guess is not supported by the parser''))) \<and>
         (map_of mimeSerializer mime = None \<longrightarrow>
            Serialize serializeJSONLD h ch order w mime = serializeNQuads h ch w \<and>
            serializeNQuads h ch w = Inr (w @ concat (map (flat_line_of h) ch), None))"
proof -
  have "Parse c h d reader mime = (h, d, Some (Error ''guess is not supported by the parser''))"
    if "map_of mimeParser mime = None"
    using that by (simp add: Parse_def registry_def)
  moreover have "Serialize serializeJSONLD h ch order w mime = serializeNQuads h ch w"
    if "map_of mimeSerializer mime = None"
    using that by (simp add: Serialize_def registry_def)
  moreover have "serializeNQuads h ch w = Inr (w @ concat (map (flat_line_of h) ch), None)"
    by (simp add: serializeNQuads_def String_loop_char[OF quads_ok_iter[OF assms(2,1)]])
  ultimately show ?thesis by blast
qed


lemma trim_examples:
  "TrimSpace ''<g> {'' = ''<g> {''" "TrimSpace ''  <a> <b> <c> .'' = ''<a> <b> <c> .''"
  "TrimSpace ''  <a> <b> .'' = ''<a> <b> .''" "TrimSpace ''  <a> <b> <g> .'' = ''<a> <b> <g> .''"
  "TrimSpace ''}'' = ''}''" "TrimSpace ''<g> '' = ''<g>''" "TrimSpace ''<g>'' = ''<g>''"
  "TrimSpace ''<a> <b> .'' = ''<a> <b> .''"
  by code_simp+

text \<open>
  White space beyond ASCII: a no-break space (U+00A0) in front and an ideographic space
  (U+3000) behind are removed; bytes that are not the encoding of a rune are kept.
\<close>

lemma TrimSpace_unicode:
  "TrimSpace ([CHR 0xC2, CHR 0xA0] @ ''{'') = ''{''"
  "TrimSpace (''<g>'' @ [CHR 0xE3, CHR 0x80, CHR 0x80, CHR 0x09]) = ''<g>''"
  "TrimSpace ([CHR 0xC2] @ ''{'' @ [CHR 0xA0]) = [CHR 0xC2] @ ''{'' @ [CHR 0xA0]"
  by code_simp+

text \<open>A block opened by a no-break space and \<open>{\<close> is a block of the default graph.\<close>

lemma nbsp_block_default_graph:
  "trig_groups (([CHR 0xC2, CHR 0xA0] @ ''{'') # ''<a> <b> <c> .'' # ''}'' # []) term_g [] =
     (''<a> <b> <c> .'' # [], None) # []"
  by code_simp





text \<open>
  C10, the theorem at a text that is one rejected group.
\<close>

theorem Parse_trig_never_fails_witness:
  "turtle_Parse demo (uri (NewDataset testDatasetUri)) (Join [''<a> <b> .''] [CHR 0x0A]) =
     Inl (Error ''syntax error'') \<and>
   Parse demo [] (NewDataset testDatasetUri) ''<a> <b> .'' ''application/trig'' =
     ([], NewDataset testDatasetUri, None) \<and>
   processTripleLines (turtle_Parse demo) [] (NewDataset testDatasetUri) [''<a> <b> .''] term_g =
     ([], NewDataset testDatasetUri)"
proof -
  have e: "turtle_Parse demo (uri (NewDataset testDatasetUri)) (Join [''<a> <b> .''] [CHR 0x0A]) =
      Inl (Error ''syntax error'')"
    by (simp add: demo_def demo_turtle_def)
  have p: "Parse demo [] (NewDataset testDatasetUri) ''<a> <b> .'' ''application/trig'' =
     ([], NewDataset testDatasetUri, None)"
    by (simp add: Parse_trig parseTrig_def trim_examples HasPrefix_def HasSuffix_def
        Contains_def processTripleLines_def demo_def demo_turtle_def)
  from Parse_trig_never_fails[of demo "[]" "NewDataset testDatasetUri" "''<a> <b> .''"
      "[''<a> <b> .'']" "Error ''syntax error''" term_g] e p
  show ?thesis by simp
qed

text \<open>
  C7, the theorem at the document the stand-in knows.
\<close>

theorem Parse_jsonld_default_graph_witness:
  "store_ok [] (NewDataset testDatasetUri) \<and>
   Parse demo [] (NewDataset testDatasetUri) jsonld_abc ''application/ld+json'' =
     ([quad_abc], (NewDataset testDatasetUri)\<lparr>quads := {|Ptr 0|}\<rparr>, None) \<and>
   ReadJSON demo jsonld_abc = Inr jsonld_abc \<and>
   ToRDF demo jsonld_abc \<lparr>Base = [], ProduceGeneralizedRdf = False\<rparr> =
     Inr [(term_a, term_b, term_c)] \<and>
   Len ((NewDataset testDatasetUri)\<lparr>quads := {|Ptr 0|}\<rparr>) = Len (NewDataset testDatasetUri) + 1 \<and>
   deref [quad_abc] (Ptr 0) = Inr quad_abc \<and> Graph quad_abc = None"
proof -
  have ok: "store_ok [] (NewDataset testDatasetUri)"
    by (simp add: store_ok_def NewDataset_def)
  have j: "ReadJSON demo jsonld_abc = Inr jsonld_abc"
    and t: "ToRDF demo jsonld_abc \<lparr>Base = [], ProduceGeneralizedRdf = False\<rparr> =
      Inr [(term_a, term_b, term_c)]"
    by (simp_all add: demo_def demo_ReadJSON_def demo_ToRDF_def)
  have p: "Parse demo [] (NewDataset testDatasetUri) jsonld_abc ''application/ld+json'' =
     ([quad_abc], (NewDataset testDatasetUri)\<lparr>quads := {|Ptr 0|}\<rparr>, None)"
    by (simp add: Parse_jsonld j t mk_quad_def quad_abc_def fresh_ptrs_def NewDataset_def)
  have d: "deref [quad_abc] (Ptr 0) = Inr quad_abc" "Graph quad_abc = None"
    by (simp_all add: deref_def quad_abc_def)
  from Parse_jsonld_default_graph[OF ok p] obtain jsonData ts where
    "ReadJSON demo jsonld_abc = Inr jsonData"
    "ToRDF demo jsonData \<lparr>Base = [], ProduceGeneralizedRdf = False\<rparr> = Inr ts"
    "Len ((NewDataset testDatasetUri)\<lparr>quads := {|Ptr 0|}\<rparr>) =
       Len (NewDataset testDatasetUri) + length ts"
    by blast
  with j t have "Len ((NewDataset testDatasetUri)\<lparr>quads := {|Ptr 0|}\<rparr>) =
      Len (NewDataset testDatasetUri) + 1"
    by auto
  with ok p j t d show ?thesis by blast
qed

text \<open>
  C4 as stated fails for \<open>Serialize\<close>: \<open>application/n-quads\<close> (the identifier the
  repository's test passes) is not a key of the serializer registry, and \<open>Serialize\<close>
  returns a nil error after writing the N-Quads line.
\<close>

theorem Serialize_unregistered_counterexample:
  "map_of mimeSerializer ''application/n-quads'' = None \<and>
   Serialize demo_JSONLD (fst built_q) [Ptr 0] first_seen [] ''application/n-quads'' =
     Inr (''<a> <b> <c> <g> .'' @ [CHR 0x0A], None)"
  by (simp add: mimeSerializer_def Serialize_def registry_def serializeNQuads_def built_q_eq
      deref_def Quad_String_def nil_or_String_def example_terms)

text \<open>
  C4, the theorem at the same identifier.
\<close>

theorem unregistered_format_witness:
  "IterQuads holds_q [Ptr 0] \<and> quads_ok (fst built_q) holds_q \<and>
   map_of mimeParser ''application/n-quads'' = None \<and>
   map_of mimeSerializer ''application/n-quads'' = None \<and>
   Parse demo (fst built_q) holds_q [] ''application/n-quads'' =
     (fst built_q, holds_q, Some (Error ''guess is not supported by the parser'')) \<and>
   Serialize demo_JSONLD (fst built_q) [Ptr 0] first_seen ''# '' ''application/n-quads'' =
     Inr (''# '' @ concat (map (flat_line_of (fst built_q)) [Ptr 0]), None)"
proof -
  have it: "IterQuads holds_q [Ptr 0]"
    by (simp add: holds_q_def built_q_eq IterQuads_def Add_def NewDataset_def)
  have ok: "quads_ok (fst built_q) holds_q"
    by (simp add: holds_q_def built_q_eq quads_ok_def quad_ok_def deref_def Add_def
        NewDataset_def example_terms)
  have m: "map_of mimeParser ''application/n-quads'' = None"
    "map_of mimeSerializer ''application/n-quads'' = None"
    by (simp_all add: mimeParser_def mimeSerializer_def)
  from unregistered_format[OF it ok, of "''application/n-quads''" demo "[]" demo_JSONLD
      first_seen "''# ''"] it ok m
  show ?thesis by simp
qed

end
